theory Spec2Isabelle
  imports Main "HOL-Library.Sublist" "HOL-Library.Multiset"
begin


section \<open>Strings\<close>

text \<open>
  A JavaScript string is modelled as a list of 8-bit characters. Letter case, the classes
  \<open>\s\<close>, \<open>\w\<close>, \<open>\d\<close> and \<open>trim\<close> are interpreted on ASCII; every other character
  is a non-letter, non-space, non-word character that the case mappings leave alone.
\<close>

definition is_lower :: "char \<Rightarrow> bool" where
  "is_lower c = (c \<in> set ''abcdefghijklmnopqrstuvwxyz'')"

definition is_upper :: "char \<Rightarrow> bool" where
  "is_upper c = (c \<in> set ''ABCDEFGHIJKLMNOPQRSTUVWXYZ'')"

definition is_digit :: "char \<Rightarrow> bool" where
  "is_digit c = (c \<in> set ''0123456789'')"

definition is_word :: "char \<Rightarrow> bool" where
  "is_word c = (is_lower c \<or> is_upper c \<or> is_digit c \<or> c = CHR ''_'')"

definition is_space :: "char \<Rightarrow> bool" where
  "is_space c = (c \<in> set [CHR '' '', CHR 0x09, CHR 0x0A, CHR 0x0B, CHR 0x0C, CHR 0x0D])"

definition is_line_terminator :: "char \<Rightarrow> bool" where
  "is_line_terminator c = (c = CHR 0x0A \<or> c = CHR 0x0D)"

definition toUpperChar :: "char \<Rightarrow> char" where
  "toUpperChar c =
     (case map_of (zip ''abcdefghijklmnopqrstuvwxyz'' ''ABCDEFGHIJKLMNOPQRSTUVWXYZ'') c of
        Some u \<Rightarrow> u | None \<Rightarrow> c)"

definition toLowerChar :: "char \<Rightarrow> char" where
  "toLowerChar c =
     (case map_of (zip ''ABCDEFGHIJKLMNOPQRSTUVWXYZ'' ''abcdefghijklmnopqrstuvwxyz'') c of
        Some l \<Rightarrow> l | None \<Rightarrow> c)"

definition toUpperCase :: "string \<Rightarrow> string" where
  "toUpperCase s = map toUpperChar s"

definition toLowerCase :: "string \<Rightarrow> string" where
  "toLowerCase s = map toLowerChar s"

definition trim :: "string \<Rightarrow> string" where
  "trim s = rev (dropWhile is_space (rev (dropWhile is_space s)))"

text \<open>\<open>s.includes(t)\<close>, \<open>s.startsWith(t)\<close>, \<open>s.indexOf(t)\<close> (\<open>None\<close> for -1).\<close>

definition str_includes :: "string \<Rightarrow> string \<Rightarrow> bool" where
  "str_includes s t = sublist t s"

definition startsWith :: "string \<Rightarrow> string \<Rightarrow> bool" where
  "startsWith s t = prefix t s"

fun indexOf :: "string \<Rightarrow> string \<Rightarrow> nat option" where
  "indexOf [] t = (if t = [] then Some 0 else None)"
| "indexOf (x # xs) t =
     (if prefix t (x # xs) then Some 0 else map_option Suc (indexOf xs t))"

text \<open>\<open>s.charAt(0).toUpperCase() + s.slice(1)\<close>\<close>

definition capitalize :: "string \<Rightarrow> string" where
  "capitalize s = (case s of [] \<Rightarrow> [] | x # xs \<Rightarrow> toUpperChar x # xs)"

section \<open>Regular expressions\<close>

text \<open>
  The regular expressions of the source are kept as syntax trees and run by one
  backtracking matcher. For a pattern and a start state the matcher returns every way
  the pattern can match there, in the order in which a backtracking engine tries them:
  the head of the list is the match JavaScript reports. A state is the index in the
  input, the input that is left, and the captures so far.
\<close>

type_synonym caps = "nat \<Rightarrow> string option"
type_synonym mstate = "nat \<times> string \<times> caps"

datatype cclass = CChar char | CSpace | CNotSpace | CWord | CDigit

datatype regex =
    Eps
  | Lit char
  | Dot
  | CSet "cclass list"
  | NSet "cclass list"
  | Seq regex regex
  | Alt regex regex
  | Star regex
  | LazyStar regex
  | Opt regex
  | Group nat regex
  | Bol
  | Eol

fun in_class :: "bool \<Rightarrow> cclass \<Rightarrow> char \<Rightarrow> bool" where
  "in_class ic (CChar d) c = (if ic then toUpperChar c = toUpperChar d else c = d)"
| "in_class ic CSpace c = is_space c"
| "in_class ic CNotSpace c = (\<not> is_space c)"
| "in_class ic CWord c = is_word c"
| "in_class ic CDigit c = is_digit c"

fun groups :: "regex \<Rightarrow> nat list" where
  "groups (Seq a b) = groups a @ groups b"
| "groups (Alt a b) = groups a @ groups b"
| "groups (Star a) = groups a"
| "groups (LazyStar a) = groups a"
| "groups (Opt a) = groups a"
| "groups (Group n a) = n # groups a"
| "groups _ = []"

text \<open>Each iteration of a quantified pattern starts with the captures of its groups cleared.\<close>

definition reset :: "nat list \<Rightarrow> caps \<Rightarrow> caps" where
  "reset ns c = (\<lambda>n. if n \<in> set ns then None else c n)"

fun step_char :: "(char \<Rightarrow> bool) \<Rightarrow> mstate \<Rightarrow> mstate list" where
  "step_char p (i, [], c) = []"
| "step_char p (i, x # xs, c) = (if p x then [(Suc i, xs, c)] else [])"

text \<open>An iteration of a quantifier that consumes nothing is rejected.\<close>

fun progress :: "string \<Rightarrow> mstate \<Rightarrow> bool" where
  "progress s (i', s', c') = (length s' < length s)"

function (sequential) ms :: "bool \<Rightarrow> regex \<Rightarrow> mstate \<Rightarrow> mstate list" where
  "ms ic Eps st = [st]"
| "ms ic (Lit d) st = step_char (in_class ic (CChar d)) st"
| "ms ic Dot st = step_char (\<lambda>x. \<not> is_line_terminator x) st"
| "ms ic (CSet cs) st = step_char (\<lambda>x. list_ex (\<lambda>k. in_class ic k x) cs) st"
| "ms ic (NSet cs) st = step_char (\<lambda>x. \<not> list_ex (\<lambda>k. in_class ic k x) cs) st"
| "ms ic (Seq a b) st = concat (map (ms ic b) (ms ic a st))"
| "ms ic (Alt a b) st = ms ic a st @ ms ic b st"
| ms_Star: "ms ic (Star a) (i, s, c) =
     concat (map (ms ic (Star a)) (filter (progress s) (ms ic a (i, s, reset (groups a) c))))
     @ [(i, s, c)]"
| ms_LazyStar: "ms ic (LazyStar a) (i, s, c) =
     (i, s, c) #
     concat (map (ms ic (LazyStar a)) (filter (progress s) (ms ic a (i, s, reset (groups a) c))))"
| "ms ic (Opt a) (i, s, c) =
     filter (progress s) (ms ic a (i, s, reset (groups a) c)) @ [(i, s, c)]"
| "ms ic (Group n a) (i, s, c) =
     map (\<lambda>(i', s', c'). (i', s', c'(n \<mapsto> take (length s - length s') s))) (ms ic a (i, s, c))"
| "ms ic Bol (i, s, c) = (if i = 0 then [(i, s, c)] else [])"
| "ms ic Eol (i, s, c) = (if s = [] then [(i, s, c)] else [])"
  by pat_completeness auto
termination
  by (relation "measures [\<lambda>(ic, r, st). size r, \<lambda>(ic, r, st). length (fst (snd st))]") auto

declare ms_Star [simp del] ms_LazyStar [simp del]

text \<open>Derived forms: a literal string, \<open>r+\<close>, \<open>r+?\<close>, sequences and alternatives.\<close>

fun Str :: "string \<Rightarrow> regex" where
  "Str [] = Eps"
| "Str (c # cs) = Seq (Lit c) (Str cs)"

definition OneOrMore :: "regex \<Rightarrow> regex" where
  "OneOrMore r = Seq r (Star r)"

definition LazyOneOrMore :: "regex \<Rightarrow> regex" where
  "LazyOneOrMore r = Seq r (LazyStar r)"

fun Seqs :: "regex list \<Rightarrow> regex" where
  "Seqs [] = Eps"
| "Seqs (r # rs) = Seq r (Seqs rs)"

fun Alts :: "regex list \<Rightarrow> regex" where
  "Alts [] = NSet [CSpace, CNotSpace]"
| "Alts [r] = r"
| "Alts (r # rs) = Alt r (Alts rs)"

text \<open>
  A match as \<open>String.prototype.match\<close> and \<open>RegExp.prototype.exec\<close> report it: the index,
  the matched text (\<open>match[0]\<close>), the input after the match and the captures
  (\<open>match[n]\<close>, \<open>None\<close> for \<open>undefined\<close>).
\<close>

record rmatch =
  m_index :: nat
  m_text :: string
  m_rest :: string
  m_caps :: caps

text \<open>The leftmost match at or after index \<open>i\<close>, where \<open>s\<close> is the input from \<open>i\<close> on.\<close>

fun search_from :: "bool \<Rightarrow> regex \<Rightarrow> nat \<Rightarrow> string \<Rightarrow> rmatch option" where
  "search_from ic r i [] =
     (case ms ic r (i, [], Map.empty) of
        [] \<Rightarrow> None
      | (j, s', c) # _ \<Rightarrow> Some \<lparr>m_index = i, m_text = [], m_rest = s', m_caps = c\<rparr>)"
| "search_from ic r i (x # xs) =
     (case ms ic r (i, x # xs, Map.empty) of
        [] \<Rightarrow> search_from ic r (Suc i) xs
      | (j, s', c) # _ \<Rightarrow>
          Some \<lparr>m_index = i, m_text = take (length (x # xs) - length s') (x # xs),
                m_rest = s', m_caps = c\<rparr>)"

definition re_match :: "bool \<Rightarrow> regex \<Rightarrow> string \<Rightarrow> rmatch option" where
  "re_match ic r s = search_from ic r 0 s"

definition re_test :: "bool \<Rightarrow> regex \<Rightarrow> string \<Rightarrow> bool" where
  "re_test ic r s = (re_match ic r s \<noteq> None)"

text \<open>\<open>match[n]\<close> interpolated into a template literal.\<close>

definition cap_str :: "rmatch \<Rightarrow> nat \<Rightarrow> string" where
  "cap_str m n = (case m_caps m n of Some w \<Rightarrow> w | None \<Rightarrow> ''undefined'')"

lemma step_char_D:
  "st' \<in> set (step_char p st) \<Longrightarrow>
   \<exists>x. fst (snd st) = x # fst (snd st') \<and> p x \<and> fst st' = Suc (fst st) \<and> snd (snd st') = snd (snd st)"
  by (cases "(p, st)" rule: step_char.cases) (auto split: if_splits)

lemma ms_suffix:
  "st' \<in> set (ms ic r st) \<Longrightarrow>
   \<exists>w. fst (snd st) = w @ fst (snd st') \<and> fst st' = fst st + length w"
proof (induction ic r st arbitrary: st' rule: ms.induct)
  case (1 ic st)
  then show ?case by simp
next
  case (2 ic d st)
  then show ?case by (auto dest!: step_char_D)
next
  case (3 ic st)
  then show ?case by (auto dest!: step_char_D)
next
  case (4 ic cs st)
  then show ?case by (auto dest!: step_char_D)
next
  case (5 ic cs st)
  then show ?case by (auto dest!: step_char_D)
next
  case (6 ic a b st)
  from 6(3) obtain st1 where a: "st1 \<in> set (ms ic a st)" and b: "st' \<in> set (ms ic b st1)"
    by auto
  from 6(1)[OF a] 6(2)[OF a b] show ?case by auto
next
  case (7 ic a b st)
  from 7(3) have "st' \<in> set (ms ic a st) \<or> st' \<in> set (ms ic b st)" by simp
  then show ?case using 7(1) 7(2) by blast
next
  case (8 ic a i s c)
  from 8(3) consider "st' = (i, s, c)"
    | st1 where "st1 \<in> set (ms ic a (i, s, reset (groups a) c))" "progress s st1"
        "st' \<in> set (ms ic (Star a) st1)"
    by (subst (asm) ms_Star) auto
  then show ?case
  proof cases
    case 1
    then show ?thesis by simp
  next
    case 2
    from 8(1)[OF 2(1)] 8(2)[of st1 st'] 2 show ?thesis by auto
  qed
next
  case (9 ic a i s c)
  from 9(3) consider "st' = (i, s, c)"
    | st1 where "st1 \<in> set (ms ic a (i, s, reset (groups a) c))" "progress s st1"
        "st' \<in> set (ms ic (LazyStar a) st1)"
    by (subst (asm) ms_LazyStar) auto
  then show ?case
  proof cases
    case 1
    then show ?thesis by simp
  next
    case 2
    from 9(1)[OF 2(1)] 9(2)[of st1 st'] 2 show ?thesis by auto
  qed
next
  case (10 ic a i s c)
  then show ?case by (cases st') auto
next
  case (11 ic n a i s c)
  then show ?case by auto
next
  case (12 ic i s c)
  then show ?case by (auto split: if_splits)
next
  case (13 ic i s c)
  then show ?case by (auto split: if_splits)
qed

definition digit_val :: "char \<Rightarrow> nat" where
  "digit_val c =
     (case map_of (zip ''0123456789'' [0, 1, 2, 3, 4, 5, 6, 7, 8, 9]) c of
        Some n \<Rightarrow> n | None \<Rightarrow> 0)"

definition cap_or_empty :: "string option \<Rightarrow> string" where
  "cap_or_empty w = (case w of Some u \<Rightarrow> u | None \<Rightarrow> [])"

fun get_substitution ::
  "nat \<Rightarrow> caps \<Rightarrow> string \<Rightarrow> string \<Rightarrow> string \<Rightarrow> string \<Rightarrow> string" where
  "get_substitution m cs matched pre post [] = []"
| "get_substitution m cs matched pre post [x] = [x]"
| "get_substitution m cs matched pre post (x # y # t) =
     (if x \<noteq> CHR ''$'' then x # get_substitution m cs matched pre post (y # t)
      else if y = CHR ''$'' then CHR ''$'' # get_substitution m cs matched pre post t
      else if y = CHR ''&'' then matched @ get_substitution m cs matched pre post t
      else if y = CHR 0x60 then pre @ get_substitution m cs matched pre post t
      else if y = CHR 0x27 then post @ get_substitution m cs matched pre post t
      else if is_digit y then
        (case t of
           z # t' \<Rightarrow>
             if is_digit z \<and> 10 * digit_val y + digit_val z \<le> m then
               (if 1 \<le> 10 * digit_val y + digit_val z
                then cap_or_empty (cs (10 * digit_val y + digit_val z))
                     @ get_substitution m cs matched pre post t'
                else x # y # z # get_substitution m cs matched pre post t')
             else if 1 \<le> digit_val y \<and> digit_val y \<le> m
             then cap_or_empty (cs (digit_val y)) @ get_substitution m cs matched pre post t
             else x # y # get_substitution m cs matched pre post t
         | [] \<Rightarrow>
             if 1 \<le> digit_val y \<and> digit_val y \<le> m
             then cap_or_empty (cs (digit_val y))
             else [x, y])
      else x # get_substitution m cs matched pre post (y # t))"

definition substitute :: "regex \<Rightarrow> string \<Rightarrow> string \<Rightarrow> rmatch \<Rightarrow> string" where
  "substitute r repl whole m =
     get_substitution (length (groups r)) (m_caps m) (m_text m)
       (take (m_index m) whole) (m_rest m) repl"

definition replace_first :: "bool \<Rightarrow> regex \<Rightarrow> string \<Rightarrow> string \<Rightarrow> string" where
  "replace_first ic r repl s =
     (case re_match ic r s of
        None \<Rightarrow> s
      | Some m \<Rightarrow> take (m_index m) s @ substitute r repl s m @ m_rest m)"

lemma search_from_Some:
  "search_from ic r i s = Some m \<Longrightarrow>
   \<exists>k st' sts. m_index m = i + k \<and> k \<le> length s \<and>
     ms ic r (i + k, drop k s, Map.empty) = st' # sts \<and>
     m_rest m = fst (snd st') \<and> m_caps m = snd (snd st') \<and>
     drop k s = m_text m @ m_rest m \<and>
     (\<forall>j<k. ms ic r (i + j, drop j s, Map.empty) = [])"
proof (induction s arbitrary: i)
  case Nil
  then obtain st' sts where ms: "ms ic r (i, [], Map.empty) = st' # sts"
    by (auto split: list.splits)
  then have "st' \<in> set (ms ic r (i, [], Map.empty))" by simp
  from ms_suffix[OF this] have "fst (snd st') = []" by simp
  with Nil ms show ?case by (cases st') auto
next
  case (Cons x xs)
  show ?case
  proof (cases "ms ic r (i, x # xs, Map.empty)")
    case Nil
    with Cons.prems have "search_from ic r (Suc i) xs = Some m" by simp
    from Cons.IH[OF this] obtain k st' sts where k:
      "m_index m = Suc i + k" "k \<le> length xs"
      "ms ic r (Suc i + k, drop k xs, Map.empty) = st' # sts"
      "m_rest m = fst (snd st')" "m_caps m = snd (snd st')"
      "drop k xs = m_text m @ m_rest m"
      "\<forall>j<k. ms ic r (Suc i + j, drop j xs, Map.empty) = []"
      by blast
    have "\<forall>j<Suc k. ms ic r (i + j, drop j (x # xs), Map.empty) = []"
    proof (intro allI impI)
      fix j assume "j < Suc k"
      then show "ms ic r (i + j, drop j (x # xs), Map.empty) = []"
        using Nil k(7) by (cases j) auto
    qed
    with k show ?thesis
      by (intro exI[of _ "Suc k"] exI[of _ st'] exI[of _ sts]) auto
  next
    case (Cons st' sts)
    obtain j s' c where st': "st' = (j, s', c)" by (cases st')
    from Cons have "st' \<in> set (ms ic r (i, x # xs, Map.empty))" by simp
    from ms_suffix[OF this] st' obtain w where w: "x # xs = w @ s'" by auto
    from Cons st' Cons.prems
    have m: "m = \<lparr>m_index = i, m_text = take (length (x # xs) - length s') (x # xs),
                 m_rest = s', m_caps = c\<rparr>" by simp
    have "take (length (x # xs) - length s') (x # xs) = w" using w by simp
    with m w Cons st' show ?thesis
      by (intro exI[of _ 0] exI[of _ st'] exI[of _ sts]) auto
  qed
qed

lemma search_from_lengths:
  assumes "search_from ic r i s = Some m"
  shows "length s = (m_index m - i) + length (m_text m) + length (m_rest m)"
    and "i \<le> m_index m"
proof -
  from search_from_Some[OF assms] obtain k where
    k: "m_index m = i + k" "k \<le> length s" "drop k s = m_text m @ m_rest m" by blast
  have "length (drop k s) = length (m_text m) + length (m_rest m)" using k(3) by simp
  moreover have "length (drop k s) = length s - k" by simp
  ultimately show "length s = (m_index m - i) + length (m_text m) + length (m_rest m)"
    using k(1,2) by simp
  from k show "i \<le> m_index m" by simp
qed

text \<open>
  Replacement under the \<open>g\<close> flag: every match from left to right; after an empty match
  the next search starts one character later.
\<close>

function replace_all_from ::
  "bool \<Rightarrow> regex \<Rightarrow> string \<Rightarrow> string \<Rightarrow> nat \<Rightarrow> string \<Rightarrow> string" where
  "replace_all_from ic r repl whole i s =
     (case search_from ic r i s of
        None \<Rightarrow> s
      | Some m \<Rightarrow>
          take (m_index m - i) s @ substitute r repl whole m @
          (if m_text m = [] then
             (case m_rest m of
                [] \<Rightarrow> []
              | x # xs \<Rightarrow> x # replace_all_from ic r repl whole (Suc (m_index m)) xs)
           else replace_all_from ic r repl whole (m_index m + length (m_text m)) (m_rest m)))"
  by pat_completeness auto
termination
proof (relation "measure (\<lambda>(ic, r, repl, whole, i, s). length s)", goal_cases)
  case 1
  then show ?case by simp
next
  case (2 ic r repl whole i s m x xs)
  then show ?case using search_from_lengths(1)[of ic r i s m] by simp
next
  case (3 ic r repl whole i s m)
  then show ?case using search_from_lengths(1)[of ic r i s m] by simp
qed

declare replace_all_from.simps [simp del]

definition replace_all :: "bool \<Rightarrow> regex \<Rightarrow> string \<Rightarrow> string \<Rightarrow> string" where
  "replace_all ic r repl s = replace_all_from ic r repl s 0 s"

definition ws :: regex where
  "ws = CSet [CSpace]"

definition preprocessQuery :: "string \<Rightarrow> string" where
  "preprocessQuery query =
     trim (replace_all False (NSet [CWord, CSpace]) '' ''
       (replace_all False (OneOrMore ws) '' '' (trim (toLowerCase query))))"

definition sq :: char where "sq = CHR 0x27"
definition dq :: char where "dq = CHR 0x22"

section \<open>Preprocessor and intent classifier\<close>

definition classifyIntent :: "string \<Rightarrow> string" where
  "classifyIntent query =
     (let addKeywords = [''add'', ''create'', ''new'', ''insert'', ''make''];
          deleteKeywords = [''delete'', ''remove'', ''drop''];
          updateKeywords = [''update'', ''edit'', ''change'', ''modify'', ''mark'', ''complete'',
                            ''finish'', ''done'', ''set''];
          listKeywords = [''list'', ''show'', ''get'', ''find'', ''select'', ''display'']
      in if str_includes query ''show'' \<or> str_includes query ''list'' \<or>
            str_includes query ''display'' \<or> str_includes query ''get''
         then ''READ''
         else if str_includes query ''mark'' \<and>
                 (str_includes query ''done'' \<or> str_includes query ''complete'')
         then ''UPDATE''
         else if str_includes query ''finish'' \<or>
                 (str_includes query ''set'' \<and> str_includes query ''done'')
         then ''UPDATE''
         else if list_ex (\<lambda>keyword. str_includes query keyword) addKeywords then ''CREATE''
         else if list_ex (\<lambda>keyword. str_includes query keyword) deleteKeywords then ''DELETE''
         else if list_ex (\<lambda>keyword. str_includes query keyword) updateKeywords then ''UPDATE''
         else if list_ex (\<lambda>keyword. str_includes query keyword) listKeywords then ''READ''
         else ''READ'')"

section \<open>Syntax repairer\<close>

text \<open>\<open>/^(create|add|new|make|insert)\s+(a\s+)?(task|todo|item)\s+(for\s+me\s+)?(to\s+)?/i\<close>\<close>

definition commandPattern :: regex where
  "commandPattern = Seqs [Bol,
     Group 1 (Alts [Str ''create'', Str ''add'', Str ''new'', Str ''make'', Str ''insert'']),
     OneOrMore ws,
     Opt (Group 2 (Seqs [Lit CHR ''a'', OneOrMore ws])),
     Group 3 (Alts [Str ''task'', Str ''todo'', Str ''item'']),
     OneOrMore ws,
     Opt (Group 4 (Seqs [Str ''for'', OneOrMore ws, Str ''me'', OneOrMore ws])),
     Opt (Group 5 (Seqs [Str ''to'', OneOrMore ws]))]"

text \<open>\<open>/,$/\<close>\<close>

definition trailingComma :: regex where
  "trailingComma = Seqs [Lit CHR '','', Eol]"

definition extractTaskDescription :: "string \<Rightarrow> string" where
  "extractTaskDescription query =
     (let cleaned = trim (replace_first False trailingComma ''''
                      (replace_first True commandPattern '''' (toLowerCase query)))
      in if startsWith cleaned ''order '' \<or> startsWith cleaned ''buy '' \<or>
            startsWith cleaned ''call ''
         then capitalize cleaned
         else if str_includes cleaned '' to ''
         then (case indexOf cleaned '' to '' of
                 Some toIndex \<Rightarrow> capitalize (drop (toIndex + 4) cleaned)
               | None \<Rightarrow> capitalize cleaned)
         else capitalize cleaned)"

text \<open>
  \<open>/VALUES\s*\(\s*([^'"][^,)]*[^'"\s][^,)]*),\s*(true|false|null|\d+)\s*\)/i\<close> and
  \<open>/VALUES\s*\(\s*([^'"][^,)]+),\s*(true|false|null|\d+)\s*\)/i\<close>
\<close>

definition valuesPattern1 :: regex where
  "valuesPattern1 = Seqs [Str ''VALUES'', Star ws, Lit CHR ''('', Star ws,
     Group 1 (Seqs [NSet [CChar sq, CChar dq], Star (NSet [CChar CHR '','', CChar CHR '')'']),
                    NSet [CChar sq, CChar dq, CSpace],
                    Star (NSet [CChar CHR '','', CChar CHR '')''])]),
     Lit CHR '','', Star ws,
     Group 2 (Alts [Str ''true'', Str ''false'', Str ''null'', OneOrMore (CSet [CDigit])]),
     Star ws, Lit CHR '')'']"

definition valuesPattern2 :: regex where
  "valuesPattern2 = Seqs [Str ''VALUES'', Star ws, Lit CHR ''('', Star ws,
     Group 1 (Seqs [NSet [CChar sq, CChar dq],
                    OneOrMore (NSet [CChar CHR '','', CChar CHR '')''])]),
     Lit CHR '','', Star ws,
     Group 2 (Alts [Str ''true'', Str ''false'', Str ''null'', OneOrMore (CSet [CDigit])]),
     Star ws, Lit CHR '')'']"

text \<open>\<open>/SET\s+(\w+)\s*=\s*([^'"][^,\s;]+)/i\<close>\<close>

definition setPattern :: regex where
  "setPattern = Seqs [Str ''SET'', OneOrMore ws, Group 1 (OneOrMore (CSet [CWord])),
     Star ws, Lit CHR ''='', Star ws,
     Group 2 (Seqs [NSet [CChar sq, CChar dq],
                    OneOrMore (NSet [CChar CHR '','', CSpace, CChar CHR '';''])])]"

text \<open>\<open>taskDescription.replace(/'/g, "''")\<close>\<close>

definition escapeQuotes :: "string \<Rightarrow> string" where
  "escapeQuotes d = replace_all False (Lit sq) [sq, sq] d"

fun fixValues :: "regex list \<Rightarrow> string \<Rightarrow> string \<Rightarrow> string" where
  "fixValues [] sql originalQuery = sql"
| "fixValues (pattern # patterns) sql originalQuery =
     (case re_match True pattern sql of
        Some m \<Rightarrow>
          (let taskDescription = extractTaskDescription originalQuery;
               escapedDescription = escapeQuotes taskDescription
           in replace_first True pattern
                (''VALUES ('' @ [sq] @ escapedDescription @ [sq] @ '', '' @ cap_str m 2 @ '')'') sql)
      | None \<Rightarrow> fixValues patterns sql originalQuery)"

definition fixSQLSyntax :: "string \<Rightarrow> string \<Rightarrow> string" where
  "fixSQLSyntax sql originalQuery =
     (let fixedSQL = sql;
          fixedSQL = (if str_includes (toUpperCase sql) ''INSERT INTO TODOS''
                      then fixValues [valuesPattern1, valuesPattern2] sql originalQuery
                      else fixedSQL);
          fixedSQL = (if str_includes (toUpperCase sql) ''UPDATE TODOS SET''
                      then (case re_match True setPattern sql of
                              Some m \<Rightarrow>
                                if map_option toLowerCase (m_caps m 1) = Some ''title''
                                then (let taskDescription = extractTaskDescription originalQuery;
                                          escapedDescription = escapeQuotes taskDescription
                                      in replace_first True setPattern
                                           (''SET '' @ cap_str m 1 @ '' = '' @ [sq] @
                                            escapedDescription @ [sq]) sql)
                                else fixedSQL
                            | None \<Rightarrow> fixedSQL)
                      else fixedSQL)
      in fixedSQL)"

section \<open>SQL extractor\<close>

definition keywordAlt :: regex where
  "keywordAlt = Alts [Str ''SELECT'', Str ''INSERT'', Str ''UPDATE'', Str ''DELETE'']"

text \<open>\<open>[\s\S]\<close>\<close>

definition anyChar :: regex where
  "anyChar = CSet [CSpace, CNotSpace]"

text \<open>The fences \<open>/```sql\n?/gi\<close> and \<open>/```\n?/g\<close>.\<close>

definition sqlFence :: regex where
  "sqlFence = Seqs [Str [CHR 0x60, CHR 0x60, CHR 0x60], Str ''sql'', Opt (Lit CHR 0x0A)]"

definition plainFence :: regex where
  "plainFence = Seqs [Str [CHR 0x60, CHR 0x60, CHR 0x60], Opt (Lit CHR 0x0A)]"

text \<open>
  \<open>/(SELECT|INSERT|UPDATE|DELETE)[\s\S]*?;?$/i\<close>,
  \<open>/(?:query|sql)["']?\s*:?\s*["']?(SELECT|INSERT|UPDATE|DELETE)[\s\S]*?["']?;?/i\<close> and
  \<open>/(?:here\s+is|query\s+is|sql\s+is)[\s\S]*?(SELECT|INSERT|UPDATE|DELETE)[\s\S]*?;?$/i\<close>
\<close>

definition sqlPatterns :: "regex list" where
  "sqlPatterns =
     [Seqs [Group 1 keywordAlt, LazyStar anyChar, Opt (Lit CHR '';''), Eol],
      Seqs [Alts [Str ''query'', Str ''sql''], Opt (CSet [CChar dq, CChar sq]), Star ws,
            Opt (Lit CHR '':''), Star ws, Opt (CSet [CChar dq, CChar sq]),
            Group 1 keywordAlt, LazyStar anyChar, Opt (CSet [CChar dq, CChar sq]),
            Opt (Lit CHR '';'')],
      Seqs [Alts [Seqs [Str ''here'', OneOrMore ws, Str ''is''],
                  Seqs [Str ''query'', OneOrMore ws, Str ''is''],
                  Seqs [Str ''sql'', OneOrMore ws, Str ''is'']],
            LazyStar anyChar, Group 1 keywordAlt, LazyStar anyChar, Opt (Lit CHR '';''), Eol]]"

text \<open>\<open>/^.*?(SELECT|INSERT|UPDATE|DELETE)/i\<close>, \<open>/;+$/\<close>, \<open>/^(SELECT|INSERT|UPDATE|DELETE)/i\<close>\<close>

definition leadingText :: regex where
  "leadingText = Seqs [Bol, LazyStar Dot, Group 1 keywordAlt]"

definition trailingSemicolons :: regex where
  "trailingSemicolons = Seqs [OneOrMore (Lit CHR '';''), Eol]"

definition startsWithKeyword :: regex where
  "startsWithKeyword = Seqs [Bol, Group 1 keywordAlt]"

fun tryPatterns :: "regex list \<Rightarrow> string \<Rightarrow> string option" where
  "tryPatterns [] cleaned = None"
| "tryPatterns (pattern # patterns) cleaned =
     (case re_match True pattern cleaned of
        Some m \<Rightarrow>
          (let sql = trim (replace_first False trailingSemicolons ''''
                       (replace_first True leadingText ''$1'' (m_text m)))
           in if sql \<noteq> [] \<and> re_test True startsWithKeyword sql then Some sql
              else tryPatterns patterns cleaned)
      | None \<Rightarrow> tryPatterns patterns cleaned)"

fun scanKeywords :: "string list \<Rightarrow> string \<Rightarrow> string option" where
  "scanKeywords [] cleaned = None"
| "scanKeywords (keyword # keywords) cleaned =
     (case indexOf (toUpperCase cleaned) keyword of
        Some index \<Rightarrow>
          (let extracted = trim (replace_first False trailingSemicolons '''' (drop index cleaned))
           in if extracted \<noteq> [] then Some extracted else scanKeywords keywords cleaned)
      | None \<Rightarrow> scanKeywords keywords cleaned)"

definition extractCleanSQL :: "string \<Rightarrow> string" where
  "extractCleanSQL rawText =
     (let cleaned = trim (replace_all False plainFence '''' (replace_all True sqlFence '''' rawText))
      in case tryPatterns sqlPatterns cleaned of
           Some sql \<Rightarrow> sql
         | None \<Rightarrow>
             (case scanKeywords [''SELECT'', ''INSERT'', ''UPDATE'', ''DELETE''] cleaned of
                Some extracted \<Rightarrow> extracted
              | None \<Rightarrow> trim (replace_first False trailingSemicolons '''' cleaned)))"

section \<open>SQL validator\<close>

record verdict =
  v_valid :: bool
  v_reason :: "string option"
  v_suggestion :: "string option"

text \<open>What the second provider answers: the call throws, or it returns a text.\<close>

datatype reply = Failed string | Reply string

text \<open>A string in a condition: \<open>undefined\<close> and the empty string are falsy.\<close>

definition truthy :: "string option \<Rightarrow> bool" where
  "truthy w = (case w of Some u \<Rightarrow> u \<noteq> [] | None \<Rightarrow> False)"

text \<open>\<open>/\{[\s\S]*\}/\<close> and \<open>/VALUES\s*\([^'"][^,)]+,\s*(true|false|\d+)\)/i\<close>\<close>

definition jsonBlock :: regex where
  "jsonBlock = Seqs [Lit CHR ''{'', Star anyChar, Lit CHR ''}'']"

definition unquotedValues :: regex where
  "unquotedValues = Seqs [Str ''VALUES'', Star ws, Lit CHR ''('', NSet [CChar sq, CChar dq],
     OneOrMore (NSet [CChar CHR '','', CChar CHR '')'']), Lit CHR '','', Star ws,
     Group 1 (Alts [Str ''true'', Str ''false'', OneOrMore (CSet [CDigit])]), Lit CHR '')'']"

definition fallbackValidation :: "string \<Rightarrow> string \<Rightarrow> verdict" where
  "fallbackValidation originalQuery sqlQuery =
     (let dangerous = [''drop'', ''alter'', ''truncate'', ''delete from todos'', ''update todos set''];
          isDangerous = list_ex (\<lambda>keyword. str_includes (toLowerCase sqlQuery) (toLowerCase keyword))
                          dangerous;
          hasUnquotedStrings = re_test True unquotedValues sqlQuery
      in if hasUnquotedStrings
         then \<lparr>v_valid = False,
               v_reason = Some ''String literals must be properly quoted with single quotes'',
               v_suggestion = Some (fixSQLSyntax sqlQuery originalQuery)\<rparr>
         else \<lparr>v_valid = (\<not> isDangerous \<and> 0 < length (trim sqlQuery)),
               v_reason = (if isDangerous
                           then Some ''Query contains potentially dangerous operations''
                           else None),
               v_suggestion = None\<rparr>)"

text \<open>
  \<open>JSON.parse\<close> is a parameter: \<open>json_parse\<close> gives the decoded verdict, or \<open>None\<close> where
  \<open>JSON.parse\<close> throws. Every exception inside the \<open>try\<close> block leads to the fallback.
\<close>

definition validateSQLWithGemini ::
  "(string \<Rightarrow> verdict option) \<Rightarrow> reply \<Rightarrow> string \<Rightarrow> string \<Rightarrow> verdict" where
  "validateSQLWithGemini json_parse gemini originalQuery sqlQuery =
     (case gemini of
        Failed e \<Rightarrow> fallbackValidation originalQuery sqlQuery
      | Reply text \<Rightarrow>
          (case re_match False jsonBlock text of
             None \<Rightarrow> fallbackValidation originalQuery sqlQuery
           | Some jsonMatch \<Rightarrow>
               (case json_parse (m_text jsonMatch) of
                  None \<Rightarrow> fallbackValidation originalQuery sqlQuery
                | Some parsed \<Rightarrow>
                    if truthy (v_suggestion parsed)
                    then parsed\<lparr>v_suggestion :=
                           Some (fixSQLSyntax (extractCleanSQL (cap_or_empty (v_suggestion parsed)))
                                   originalQuery)\<rparr>
                    else parsed)))"

section \<open>Row store\<close>

text \<open>
  The row store is an external service reached through a query builder. It is modelled
  as a table in memory that records every call it receives. A call names the rows it
  applies to by a list of filters; with no filter it applies to every row. When
  \<open>fault\<close> is set the store answers every call with that error and changes no row.
\<close>

record todo =
  todo_id :: nat
  title :: string
  completed :: bool
  created_at :: nat

datatype cell = VText string | VBool bool | VNum nat

datatype row_filter = FEq string cell | FILike string string

datatype store_call =
    CInsert string bool
  | CSelect "row_filter list"
  | CSelectFirstId
  | CUpdate string cell "row_filter list"
  | CDelete "row_filter list"

record store =
  rows :: "todo list"
  next_id :: nat
  clock :: nat
  fault :: "string option"
  calls :: "store_call list"

definition parse_nat :: "string \<Rightarrow> nat option" where
  "parse_nat s =
     (if s \<noteq> [] \<and> list_all is_digit s
      then Some (foldl (\<lambda>n c. 10 * n + digit_val c) 0 s) else None)"

text \<open>SQL \<open>LIKE\<close>: \<open>%\<close> is any text, \<open>_\<close> any character, a backslash quotes the next one.\<close>

fun like :: "string \<Rightarrow> string \<Rightarrow> bool" where
  "like [] s = (s = [])"
| "like (p # ps) s =
     (if p = CHR ''%'' then
        (like ps s \<or> (case s of [] \<Rightarrow> False | x # xs \<Rightarrow> like (p # ps) xs))
      else if p = CHR ''_'' then (case s of [] \<Rightarrow> False | x # xs \<Rightarrow> like ps xs)
      else if p = CHR 0x5C then
        (case ps of
           [] \<Rightarrow> False
         | q # qs \<Rightarrow> (case s of [] \<Rightarrow> False | x # xs \<Rightarrow> x = q \<and> like qs xs))
      else (case s of [] \<Rightarrow> False | x # xs \<Rightarrow> x = p \<and> like ps xs))"

fun sat :: "row_filter \<Rightarrow> todo \<Rightarrow> bool" where
  "sat (FEq col (VText v)) r =
     (if col = ''id'' then parse_nat v = Some (todo_id r)
      else if col = ''title'' then title r = v
      else False)"
| "sat (FEq col (VBool b)) r = (col = ''completed'' \<and> completed r = b)"
| "sat (FEq col (VNum n)) r = (col = ''id'' \<and> todo_id r = n)"
| "sat (FILike col pat) r = (col = ''title'' \<and> like (toLowerCase pat) (toLowerCase (title r)))"

definition selected :: "row_filter list \<Rightarrow> todo \<Rightarrow> bool" where
  "selected fs r = list_all (\<lambda>f. sat f r) fs"

text \<open>Writing a column: \<open>None\<close> where the store rejects the column or the value.\<close>

fun set_column :: "string \<Rightarrow> cell \<Rightarrow> todo \<Rightarrow> todo option" where
  "set_column col (VText v) r = (if col = ''title'' then Some (r\<lparr>title := v\<rparr>) else None)"
| "set_column col (VBool b) r = (if col = ''completed'' then Some (r\<lparr>completed := b\<rparr>) else None)"
| "set_column col (VNum n) r = None"

definition newest_first :: "todo list \<Rightarrow> todo list" where
  "newest_first rs = rev (sort_key created_at rs)"

definition oldest_first :: "todo list \<Rightarrow> todo list" where
  "oldest_first rs = sort_key created_at rs"

definition called :: "store_call \<Rightarrow> store \<Rightarrow> store" where
  "called k st = st\<lparr>calls := calls st @ [k]\<rparr>"

text \<open>\<open>from('todos').insert([{title, completed}]).select().single()\<close>\<close>

definition store_insert :: "string \<Rightarrow> bool \<Rightarrow> store \<Rightarrow> (string + todo) \<times> store" where
  "store_insert t b st =
     (case fault st of
        Some e \<Rightarrow> (Inl e, called (CInsert t b) st)
      | None \<Rightarrow>
          (let r = \<lparr>todo_id = next_id st, title = t, completed = b, created_at = clock st\<rparr>
           in (Inr r, called (CInsert t b)
                 (st\<lparr>rows := rows st @ [r], next_id := Suc (next_id st), clock := Suc (clock st)\<rparr>))))"

text \<open>\<open>from('todos').select('*')\<close> with filters and \<open>.order('created_at', {ascending: false})\<close>\<close>

definition store_select :: "row_filter list \<Rightarrow> store \<Rightarrow> (string + todo list) \<times> store" where
  "store_select fs st =
     (case fault st of
        Some e \<Rightarrow> (Inl e, called (CSelect fs) st)
      | None \<Rightarrow> (Inr (newest_first (filter (selected fs) (rows st))), called (CSelect fs) st))"

text \<open>
  \<open>from('todos').select('id').order('created_at', {ascending: true}).limit(1).single()\<close>:
  the data is \<open>null\<close> when there is no row or the call fails.
\<close>

definition store_first_id :: "store \<Rightarrow> nat option \<times> store" where
  "store_first_id st =
     (case fault st of
        Some e \<Rightarrow> (None, called CSelectFirstId st)
      | None \<Rightarrow>
          (case oldest_first (rows st) of
             [] \<Rightarrow> (None, called CSelectFirstId st)
           | r # _ \<Rightarrow> (Some (todo_id r), called CSelectFirstId st)))"

text \<open>\<open>from('todos').update({[column]: value})\<close> with filters and \<open>.select()\<close>\<close>

definition store_update ::
  "string \<Rightarrow> cell \<Rightarrow> row_filter list \<Rightarrow> store \<Rightarrow> (string + todo list) \<times> store" where
  "store_update col v fs st =
     (case fault st of
        Some e \<Rightarrow> (Inl e, called (CUpdate col v fs) st)
      | None \<Rightarrow>
          if list_ex (\<lambda>r. selected fs r \<and> set_column col v r = None) (rows st)
          then (Inl ''invalid column or value'', called (CUpdate col v fs) st)
          else (Inr (map (\<lambda>r. case set_column col v r of Some r' \<Rightarrow> r' | None \<Rightarrow> r)
                       (filter (selected fs) (rows st))),
                called (CUpdate col v fs)
                  (st\<lparr>rows := map (\<lambda>r. if selected fs r
                                        then (case set_column col v r of Some r' \<Rightarrow> r' | None \<Rightarrow> r)
                                        else r) (rows st)\<rparr>)))"

text \<open>\<open>from('todos').delete()\<close> with filters\<close>

definition store_delete :: "row_filter list \<Rightarrow> store \<Rightarrow> (string + unit) \<times> store" where
  "store_delete fs st =
     (case fault st of
        Some e \<Rightarrow> (Inl e, called (CDelete fs) st)
      | None \<Rightarrow>
          (Inr (), called (CDelete fs) (st\<lparr>rows := filter (\<lambda>r. \<not> selected fs r) (rows st)\<rparr>)))"

section \<open>Statement executor\<close>

text \<open>
  A handler returns the error it throws (\<open>Inl\<close>, the message) or its result, and the store
  after it. The milestones are a diagnostic log that no handler reads; they are left
  out.
\<close>

record listing =
  l_todos :: "todo list"
  l_count :: nat
  l_message :: string

function show_nat :: "nat \<Rightarrow> string" where
  "show_nat n =
     (if n < 10 then [''0123456789'' ! n]
      else show_nat (n div 10) @ [''0123456789'' ! (n mod 10)])"
  by pat_completeness auto
termination
  by (relation "measure id") auto

declare show_nat.simps [simp del]

definition getAllTodos :: "store \<Rightarrow> (string + listing) \<times> store" where
  "getAllTodos st =
     (case store_select [] st of
        (Inl e, st') \<Rightarrow> (Inl (''Failed to fetch todos: '' @ e), st')
      | (Inr data, st') \<Rightarrow>
          (Inr \<lparr>l_todos = data, l_count = length data,
                l_message = ''Operation completed successfully''\<rparr>, st'))"

text \<open>\<open>/INSERT INTO todos\s*\([^)]+\)\s*VALUES\s*\(\s*'([^']+)'\s*,\s*(true|false)\s*\)/i\<close>\<close>

definition insertPattern :: regex where
  "insertPattern = Seqs [Str ''INSERT INTO todos'', Star ws, Lit CHR ''('',
     OneOrMore (NSet [CChar CHR '')'']), Lit CHR '')'', Star ws, Str ''VALUES'', Star ws,
     Lit CHR ''('', Star ws, Lit sq, Group 1 (OneOrMore (NSet [CChar sq])), Lit sq, Star ws,
     Lit CHR '','', Star ws, Group 2 (Alts [Str ''true'', Str ''false'']), Star ws,
     Lit CHR '')'']"

text \<open>The title and the flag of an INSERT statement, or the error thrown.\<close>

definition insertParts :: "string \<Rightarrow> string + (string \<times> bool)" where
  "insertParts sql =
     (case re_match True insertPattern sql of
        None \<Rightarrow> Inl ''Could not parse INSERT statement''
      | Some m \<Rightarrow>
          Inr (cap_or_empty (m_caps m 1), toLowerCase (cap_or_empty (m_caps m 2)) = ''true''))"

definition handleInsertQuery :: "string \<Rightarrow> store \<Rightarrow> (string + listing) \<times> store" where
  "handleInsertQuery sql st =
     (case insertParts sql of
        Inl e \<Rightarrow> (Inl e, st)
      | Inr (ttl, flag) \<Rightarrow>
          (case store_insert ttl flag st of
             (Inl e, st') \<Rightarrow> (Inl (''Insert failed: '' @ e), st')
           | (Inr data, st') \<Rightarrow> getAllTodos st'))"

text \<open>
  \<open>/WHERE\s+(.+?)(?:\s+ORDER\s+BY|$)/i\<close>, \<open>/title\s+LIKE\s+'%([^%']+)%'/i\<close>,
  \<open>/title\s*=\s*'([^']+)'/i\<close> and \<open>/completed\s*=\s*(true|false)/i\<close>
\<close>

definition wherePattern :: regex where
  "wherePattern = Seqs [Str ''WHERE'', OneOrMore ws, Group 1 (LazyOneOrMore Dot),
     Alts [Seqs [OneOrMore ws, Str ''ORDER'', OneOrMore ws, Str ''BY''], Eol]]"

definition likePattern :: regex where
  "likePattern = Seqs [Str ''title'', OneOrMore ws, Str ''LIKE'', OneOrMore ws, Lit sq,
     Lit CHR ''%'', Group 1 (OneOrMore (NSet [CChar CHR ''%'', CChar sq])), Lit CHR ''%'', Lit sq]"

definition titlePattern :: regex where
  "titlePattern = Seqs [Str ''title'', Star ws, Lit CHR ''='', Star ws, Lit sq,
     Group 1 (OneOrMore (NSet [CChar sq])), Lit sq]"

definition completedPattern :: regex where
  "completedPattern = Seqs [Str ''completed'', Star ws, Lit CHR ''='', Star ws,
     Group 1 (Alts [Str ''true'', Str ''false''])]"

text \<open>The trimmed WHERE clause of a SELECT statement; \<open>None\<close> when the pattern finds none.\<close>

definition selectWhere :: "string \<Rightarrow> string option" where
  "selectWhere sql =
     (case re_match True wherePattern sql of
        None \<Rightarrow> None
      | Some whereMatch \<Rightarrow> Some (trim (cap_or_empty (m_caps whereMatch 1))))"

text \<open>The filters the SELECT handler puts on its query for a WHERE clause.\<close>

definition selectFilters :: "string \<Rightarrow> row_filter list" where
  "selectFilters whereClause =
     (case re_match True likePattern whereClause of
        Some likeMatch \<Rightarrow>
          [FILike ''title'' (''%'' @ cap_or_empty (m_caps likeMatch 1) @ ''%'')]
      | None \<Rightarrow>
          (case re_match True titlePattern whereClause of
             Some titleMatch \<Rightarrow> [FEq ''title'' (VText (cap_or_empty (m_caps titleMatch 1)))]
           | None \<Rightarrow>
               (case re_match True completedPattern whereClause of
                  Some completedMatch \<Rightarrow>
                    [FEq ''completed''
                       (VBool (toLowerCase (cap_or_empty (m_caps completedMatch 1)) = ''true''))]
                | None \<Rightarrow> [])))"

definition handleSelectQuery :: "string \<Rightarrow> store \<Rightarrow> (string + listing) \<times> store" where
  "handleSelectQuery sql st =
     (case selectWhere sql of
        Some whereClause \<Rightarrow>
          (case store_select (selectFilters whereClause) st of
             (Inl e, st') \<Rightarrow> (Inl (''Select failed: '' @ e), st')
           | (Inr data, st') \<Rightarrow>
               (Inr \<lparr>l_todos = data, l_count = length data,
                     l_message = ''Found '' @ show_nat (length data) @ '' matching todos''\<rparr>, st'))
      | None \<Rightarrow> getAllTodos st)"

text \<open>
  \<open>/UPDATE todos SET\s+(\w+)\s*=\s*'([^']+)'(?:\s+WHERE\s+(.+))?/i\<close>,
  \<open>/UPDATE todos SET\s+(\w+)\s*=\s*([^,\s]+)(?:\s+WHERE\s+(.+))?/i\<close> and
  \<open>/id\s*=\s*'?([^'\s]+)'?/\<close>
\<close>

definition updatePattern :: regex where
  "updatePattern = Seqs [Str ''UPDATE todos SET'', OneOrMore ws,
     Group 1 (OneOrMore (CSet [CWord])), Star ws, Lit CHR ''='', Star ws,
     Lit sq, Group 2 (OneOrMore (NSet [CChar sq])), Lit sq,
     Opt (Seqs [OneOrMore ws, Str ''WHERE'', OneOrMore ws, Group 3 (OneOrMore Dot)])]"

definition updatePatternNoQuotes :: regex where
  "updatePatternNoQuotes = Seqs [Str ''UPDATE todos SET'', OneOrMore ws,
     Group 1 (OneOrMore (CSet [CWord])), Star ws, Lit CHR ''='', Star ws,
     Group 2 (OneOrMore (NSet [CChar CHR '','', CSpace])),
     Opt (Seqs [OneOrMore ws, Str ''WHERE'', OneOrMore ws, Group 3 (OneOrMore Dot)])]"

definition idPattern :: regex where
  "idPattern = Seqs [Str ''id'', Star ws, Lit CHR ''='', Star ws, Opt (Lit sq),
     Group 1 (OneOrMore (NSet [CChar sq, CSpace])), Opt (Lit sq)]"

text \<open>The filters the UPDATE handler puts on its query for a WHERE clause.\<close>

definition updateFilters :: "string \<Rightarrow> store \<Rightarrow> (string + row_filter list) \<times> store" where
  "updateFilters whereClause st =
     (if str_includes whereClause ''id ='' then
        (case re_match False idPattern whereClause of
           Some idMatch \<Rightarrow> (Inr [FEq ''id'' (VText (cap_or_empty (m_caps idMatch 1)))], st)
         | None \<Rightarrow> (Inr [], st))
      else if str_includes whereClause ''title ='' then
        (case re_match True titlePattern whereClause of
           Some titleMatch \<Rightarrow> (Inr [FEq ''title'' (VText (cap_or_empty (m_caps titleMatch 1)))], st)
         | None \<Rightarrow> (Inr [], st))
      else if str_includes whereClause ''title LIKE'' then
        (case re_match True likePattern whereClause of
           Some likeMatch \<Rightarrow>
             (Inr [FILike ''title'' (''%'' @ cap_or_empty (m_caps likeMatch 1) @ ''%'')], st)
         | None \<Rightarrow> (Inr [], st))
      else if str_includes whereClause ''ORDER BY'' \<and> str_includes whereClause ''LIMIT'' then
        (case store_first_id st of
           (Some firstTodo, st') \<Rightarrow> (Inr [FEq ''id'' (VNum firstTodo)], st')
         | (None, st') \<Rightarrow> (Inr [], st'))
      else (Inl (''Unsupported WHERE clause in UPDATE: '' @ whereClause), st))"

text \<open>The column, the value and the WHERE clause of an UPDATE statement, or the error thrown.\<close>

definition updateParts :: "string \<Rightarrow> string + (string \<times> cell \<times> string)" where
  "updateParts sql =
     (case (case re_match True updatePattern sql of
              Some m \<Rightarrow> Some m
            | None \<Rightarrow> re_match True updatePatternNoQuotes sql) of
        None \<Rightarrow> Inl ''Could not parse UPDATE statement''
      | Some m \<Rightarrow>
          (let column = cap_or_empty (m_caps m 1);
               rawValue = cap_or_empty (m_caps m 2);
               whereClause = m_caps m 3;
               v = (if rawValue = ''true'' \<or> rawValue = ''false''
                    then VBool (rawValue = ''true'') else VText rawValue)
           in if \<not> truthy whereClause
              then Inl ''UPDATE without WHERE clause is not allowed for safety''
              else Inr (column, v, cap_or_empty whereClause)))"

definition handleUpdateQuery :: "string \<Rightarrow> store \<Rightarrow> (string + listing) \<times> store" where
  "handleUpdateQuery sql st =
     (case updateParts sql of
        Inl e \<Rightarrow> (Inl e, st)
      | Inr (column, v, whereClause) \<Rightarrow>
          (case updateFilters whereClause st of
             (Inl e, st') \<Rightarrow> (Inl e, st')
           | (Inr fs, st') \<Rightarrow>
               (case store_update column v fs st' of
                  (Inl e, st'') \<Rightarrow> (Inl (''Update failed: '' @ e), st'')
                | (Inr data, st'') \<Rightarrow> getAllTodos st'')))"

text \<open>\<open>/DELETE FROM todos(?:\s+WHERE\s+(.+))?/i\<close>\<close>

definition deletePattern :: regex where
  "deletePattern = Seqs [Str ''DELETE FROM todos'',
     Opt (Seqs [OneOrMore ws, Str ''WHERE'', OneOrMore ws, Group 1 (OneOrMore Dot)])]"

text \<open>The filters the DELETE handler puts on its query for a WHERE clause.\<close>

definition deleteFilters :: "string \<Rightarrow> string + row_filter list" where
  "deleteFilters whereClause =
     (if str_includes whereClause ''id ='' then
        (case re_match False idPattern whereClause of
           Some idMatch \<Rightarrow> Inr [FEq ''id'' (VText (cap_or_empty (m_caps idMatch 1)))]
         | None \<Rightarrow> Inr [])
      else if str_includes whereClause ''title ='' then
        (case re_match True titlePattern whereClause of
           Some titleMatch \<Rightarrow> Inr [FEq ''title'' (VText (cap_or_empty (m_caps titleMatch 1)))]
         | None \<Rightarrow> Inr [])
      else if str_includes whereClause ''title LIKE'' then
        (case re_match True likePattern whereClause of
           Some likeMatch \<Rightarrow>
             Inr [FILike ''title'' (''%'' @ cap_or_empty (m_caps likeMatch 1) @ ''%'')]
         | None \<Rightarrow> Inr [])
      else Inl ''Unsupported WHERE clause in DELETE statement'')"

text \<open>The WHERE clause of a DELETE statement, or the error thrown.\<close>

definition deleteWhere :: "string \<Rightarrow> string + string" where
  "deleteWhere sql =
     (case re_match True deletePattern sql of
        None \<Rightarrow> Inl ''Could not parse DELETE statement''
      | Some m \<Rightarrow>
          (let whereClause = m_caps m 1
           in if \<not> truthy whereClause
              then Inl ''DELETE without WHERE clause is not allowed for safety''
              else Inr (cap_or_empty whereClause)))"

definition handleDeleteQuery :: "string \<Rightarrow> store \<Rightarrow> (string + listing) \<times> store" where
  "handleDeleteQuery sql st =
     (case deleteWhere sql of
        Inl e \<Rightarrow> (Inl e, st)
      | Inr whereClause \<Rightarrow>
          (case deleteFilters whereClause of
             Inl e \<Rightarrow> (Inl e, st)
           | Inr fs \<Rightarrow>
               (case store_delete fs st of
                  (Inl e, st') \<Rightarrow> (Inl (''Delete failed: '' @ e), st')
                | (Inr u, st') \<Rightarrow> getAllTodos st')))"

text \<open>
  The dispatcher. \<open>cleanedSQL.toLowerCase().replace(/^\s*/, '').split(/\s+/)[0]\<close> is the
  text before the first run of white space.
\<close>

definition leadingSpace :: regex where
  "leadingSpace = Seqs [Bol, Star ws]"

definition firstWord :: "string \<Rightarrow> string" where
  "firstWord s =
     (case re_match False (OneOrMore ws) s of None \<Rightarrow> s | Some m \<Rightarrow> take (m_index m) s)"

definition executeSQLQuery :: "string \<Rightarrow> store \<Rightarrow> (string + listing) \<times> store" where
  "executeSQLQuery sqlQuery st =
     (let cleanedSQL = extractCleanSQL sqlQuery;
          queryType = firstWord (replace_first False leadingSpace '''' (toLowerCase cleanedSQL))
      in if queryType \<notin> set [''select'', ''insert'', ''update'', ''delete'']
         then (Inl (''Unsupported query type: '' @ [dq] @ queryType @ [dq] @
                    ''. Allowed types: select, insert, update, delete. Raw input: '' @
                    [dq] @ sqlQuery @ [dq]), st)
         else
           (case (if queryType = ''insert'' then handleInsertQuery cleanedSQL st
                  else if queryType = ''select'' then handleSelectQuery cleanedSQL st
                  else if queryType = ''update'' then handleUpdateQuery cleanedSQL st
                  else handleDeleteQuery cleanedSQL st) of
              (Inl dbError, st') \<Rightarrow> (Inl (''Database execution error: '' @ dbError), st')
            | (Inr result, st') \<Rightarrow> (Inr result, st')))"

section \<open>Pipeline orchestrator\<close>

record config =
  SUPABASE_URL :: string
  SUPABASE_SERVICE_ROLE_KEY :: string
  GROQ_API_KEY :: string

record queries =
  q_original :: "string option"
  q_preprocessed :: "string option"
  q_intent :: "string option"
  q_generatedSQL :: "string option"
  q_validatedSQL :: "string option"

record response =
  r_status :: nat
  r_success :: bool
  r_message :: "string option"
  r_sql :: "string option"
  r_suggestion :: "string option"
  r_data :: "listing option"
  r_error :: "string option"
  r_queries :: queries

definition no_queries :: queries where
  "no_queries = \<lparr>q_original = None, q_preprocessed = None, q_intent = None,
                  q_generatedSQL = None, q_validatedSQL = None\<rparr>"

definition failure :: "nat \<Rightarrow> string \<Rightarrow> queries \<Rightarrow> response" where
  "failure code e qs = \<lparr>r_status = code, r_success = False, r_message = None, r_sql = None,
     r_suggestion = None, r_data = None, r_error = Some e, r_queries = qs\<rparr>"

text \<open>
  The first provider's answer is an input: the call throws, or
  \<open>completion.choices[0]?.message?.content?.trim() || ''\<close> is the text it gives.
\<close>

definition generateSQLWithGroq :: "reply \<Rightarrow> string \<Rightarrow> string \<Rightarrow> string + string" where
  "generateSQLWithGroq groq query intent =
     (case groq of
        Failed e \<Rightarrow> Inl e
      | Reply content \<Rightarrow>
          (let sqlQuery = trim content;
               cleanedSQL = extractCleanSQL sqlQuery
           in Inr (fixSQLSyntax cleanedSQL query)))"

text \<open>\<open>${validation.reason}\<close> in a template literal\<close>

definition show_opt :: "string option \<Rightarrow> string" where
  "show_opt w = (case w of Some u \<Rightarrow> u | None \<Rightarrow> ''undefined'')"

definition POST ::
  "config \<Rightarrow> string option \<Rightarrow> reply \<Rightarrow> (string \<Rightarrow> verdict option) \<Rightarrow> reply \<Rightarrow> store
   \<Rightarrow> response \<times> store" where
  "POST cfg body groq json_parse gemini st =
     (if SUPABASE_URL cfg = [] \<or> SUPABASE_SERVICE_ROLE_KEY cfg = []
      then (failure 500 ''Database configuration missing'' no_queries, st)
      else if GROQ_API_KEY cfg = []
      then (failure 500 ''AI service configuration missing'' no_queries, st)
      else if \<not> truthy body
      then (failure 400 ''Natural language query is required'' no_queries, st)
      else
        (let query = cap_or_empty body;
             qs = no_queries\<lparr>q_original := Some query\<rparr>;
             cleanedQuery = preprocessQuery query;
             qs = qs\<lparr>q_preprocessed := Some cleanedQuery\<rparr>;
             intent = classifyIntent cleanedQuery;
             qs = qs\<lparr>q_intent := Some intent\<rparr>
         in case generateSQLWithGroq groq cleanedQuery intent of
              Inl e \<Rightarrow> (failure 500 e qs, st)
            | Inr sqlQuery \<Rightarrow>
                (let qs = qs\<lparr>q_generatedSQL := Some sqlQuery\<rparr>;
                     validation = validateSQLWithGemini json_parse gemini query sqlQuery;
                     finalSQL = (if truthy (v_suggestion validation)
                                 then cap_or_empty (v_suggestion validation) else sqlQuery);
                     finalSQL = (if \<not> v_valid validation \<and> \<not> truthy (v_suggestion validation)
                                 then fixSQLSyntax sqlQuery query else finalSQL);
                     qs = qs\<lparr>q_validatedSQL := Some finalSQL\<rparr>
                 in if \<not> v_valid validation \<and> \<not> truthy (v_suggestion validation) \<and>
                       finalSQL = sqlQuery
                    then ((failure 400
                            (''SQL validation failed: '' @ show_opt (v_reason validation) @
                             ''. Unable to auto-correct.'') qs)
                            \<lparr>r_sql := Some sqlQuery, r_suggestion := Some finalSQL\<rparr>, st)
                    else
                      (case executeSQLQuery finalSQL st of
                         (Inl e, st') \<Rightarrow> (failure 500 e qs, st')
                       | (Inr result, st') \<Rightarrow>
                           (\<lparr>r_status = 200, r_success = True,
                             r_message = Some (''Successfully processed: '' @ [dq] @ query @ [dq]),
                             r_sql = Some finalSQL, r_suggestion = None, r_data = Some result,
                             r_error = None, r_queries = qs\<rparr>, st')))))"

section \<open>Sample data\<close>

text \<open>The two rows of the schema description, and a complete configuration.\<close>

definition sample_store :: store where
  "sample_store =
     \<lparr>rows = [\<lparr>todo_id = 1, title = ''Learn ShadCN components'', completed = False, created_at = 10\<rparr>,
              \<lparr>todo_id = 2, title = ''Build NLP-to-SQL app'', completed = True, created_at = 20\<rparr>],
      next_id = 3, clock = 30, fault = None, calls = []\<rparr>"

definition sample_config :: config where
  "sample_config = \<lparr>SUPABASE_URL = ''url'', SUPABASE_SERVICE_ROLE_KEY = ''key'', GROQ_API_KEY = ''key''\<rparr>"

section \<open>The preprocessor, the classifier and the repairer\<close>

text \<open>
  C5. The claim is that \<open>preprocessQuery\<close> is idempotent. The source collapses white space
  before it replaces punctuation by spaces, so a punctuation character next to a space
  leaves two spaces, which a second application collapses: on \<open>a, b\<close> the first
  application gives \<open>a  b\<close> and the second \<open>a b\<close>.
\<close>

theorem preprocessQuery_not_idempotent:
  "preprocessQuery ''a, b'' = ''a  b'' \<and>
   preprocessQuery (preprocessQuery ''a, b'') = ''a b''"
  by code_simp

text \<open>
  C6. The repairer fixture: the unquoted literal of the INSERT statement is replaced by the
  task description derived from the original text, quoted and capitalised.
\<close>

theorem fixSQLSyntax_buy_milk:
  "fixSQLSyntax ''INSERT INTO todos (title, completed) VALUES (buy milk, false)''
     ''add a task to buy milk'' =
   ''INSERT INTO todos (title, completed) VALUES ('Buy milk', false)''"
  by code_simp

lemma if_mem: "a \<in> S \<Longrightarrow> b \<in> S \<Longrightarrow> (if c then a else b) \<in> S"
  by simp

lemma classifyIntent_range:
  "classifyIntent q \<in> {''CREATE'', ''READ'', ''UPDATE'', ''DELETE''}"
  unfolding classifyIntent_def Let_def by (intro if_mem) simp_all

lemma classifyIntent_default:
  assumes "\<forall>k \<in> set [''add'', ''create'', ''new'', ''insert'', ''make'', ''delete'', ''remove'', ''drop'',
                 ''update'', ''edit'', ''change'', ''modify'', ''mark'', ''complete'', ''finish'',
                 ''done'', ''set'', ''list'', ''show'', ''get'', ''find'', ''select'', ''display''].
        \<not> str_includes q k"
  shows "classifyIntent q = ''READ''"
  using assms by (simp add: classifyIntent_def)

lemma classifyIntent_read_first:
  assumes "str_includes q ''show'' \<or> str_includes q ''list'' \<or> str_includes q ''display'' \<or>
    str_includes q ''get''"
  shows "classifyIntent q = ''READ''"
  using assms by (simp add: classifyIntent_def)

lemma classifyIntent_mark_done:
  assumes "\<not> (str_includes q ''show'' \<or> str_includes q ''list'' \<or> str_includes q ''display'' \<or>
       str_includes q ''get'')"
    and "str_includes q ''mark''" and "str_includes q ''done'' \<or> str_includes q ''complete''"
  shows "classifyIntent q = ''UPDATE''"
  using assms by (simp add: classifyIntent_def)

lemma classifyIntent_finish:
  assumes "\<not> (str_includes q ''show'' \<or> str_includes q ''list'' \<or> str_includes q ''display'' \<or>
       str_includes q ''get'')"
    and "str_includes q ''finish'' \<or> (str_includes q ''set'' \<and> str_includes q ''done'')"
  shows "classifyIntent q = ''UPDATE''"
  using assms by (simp add: classifyIntent_def)

lemma classifyIntent_single:
  assumes "\<not> (str_includes q ''show'' \<or> str_includes q ''list'' \<or> str_includes q ''display'' \<or>
       str_includes q ''get'')"
    and "\<not> (str_includes q ''mark'' \<and> (str_includes q ''done'' \<or> str_includes q ''complete''))"
    and "\<not> (str_includes q ''finish'' \<or> (str_includes q ''set'' \<and> str_includes q ''done''))"
  shows "classifyIntent q =
     (if \<exists>k \<in> set [''add'', ''create'', ''new'', ''insert'', ''make'']. str_includes q k
      then ''CREATE''
      else if \<exists>k \<in> set [''delete'', ''remove'', ''drop'']. str_includes q k
      then ''DELETE''
      else if \<exists>k \<in> set [''update'', ''edit'', ''change'', ''modify'', ''mark'', ''complete'',
                            ''finish'', ''done'', ''set'']. str_includes q k
      then ''UPDATE''
      else ''READ'')"
proof -
  have c: "classifyIntent q =
     (if list_ex (str_includes q) [''add'', ''create'', ''new'', ''insert'', ''make''] then ''CREATE''
      else if list_ex (str_includes q) [''delete'', ''remove'', ''drop''] then ''DELETE''
      else if list_ex (str_includes q) [''update'', ''edit'', ''change'', ''modify'', ''mark'',
                ''complete'', ''finish'', ''done'', ''set''] then ''UPDATE''
      else ''READ'')"
    using assms unfolding classifyIntent_def Let_def
    by (simp only: if_False if_True simp_thms if_cancel)
  show ?thesis unfolding c list_ex_iff ..
qed

text \<open>
  C7. \<open>classifyIntent\<close> always returns one of the four intents; a text with none of the
  keywords is READ; the read cues are checked first, then the compound cue of mark with
  done or complete, then finish or set with done, then the keyword sets in the order
  CREATE, DELETE, UPDATE, READ; and the fixture \<open>mark task as done\<close> is UPDATE.
\<close>

theorem classifyIntent_total:
  "classifyIntent q \<in> {''CREATE'', ''READ'', ''UPDATE'', ''DELETE''} \<and>
   ((\<forall>k \<in> set [''add'', ''create'', ''new'', ''insert'', ''make'', ''delete'', ''remove'', ''drop'',
                 ''update'', ''edit'', ''change'', ''modify'', ''mark'', ''complete'', ''finish'',
                 ''done'', ''set'', ''list'', ''show'', ''get'', ''find'', ''select'', ''display''].
        \<not> str_includes q k) \<longrightarrow> classifyIntent q = ''READ'') \<and>
   (str_includes q ''show'' \<or> str_includes q ''list'' \<or> str_includes q ''display'' \<or>
    str_includes q ''get'' \<longrightarrow> classifyIntent q = ''READ'') \<and>
   (\<not> (str_includes q ''show'' \<or> str_includes q ''list'' \<or> str_includes q ''display'' \<or>
       str_includes q ''get'') \<and>
    str_includes q ''mark'' \<and> (str_includes q ''done'' \<or> str_includes q ''complete'')
      \<longrightarrow> classifyIntent q = ''UPDATE'') \<and>
   (\<not> (str_includes q ''show'' \<or> str_includes q ''list'' \<or> str_includes q ''display'' \<or>
       str_includes q ''get'') \<and>
    (str_includes q ''finish'' \<or> (str_includes q ''set'' \<and> str_includes q ''done''))
      \<longrightarrow> classifyIntent q = ''UPDATE'') \<and>
   (\<not> (str_includes q ''show'' \<or> str_includes q ''list'' \<or> str_includes q ''display'' \<or>
       str_includes q ''get'') \<and>
    \<not> (str_includes q ''mark'' \<and> (str_includes q ''done'' \<or> str_includes q ''complete'')) \<and>
    \<not> (str_includes q ''finish'' \<or> (str_includes q ''set'' \<and> str_includes q ''done''))
      \<longrightarrow> classifyIntent q =
        (if \<exists>k \<in> set [''add'', ''create'', ''new'', ''insert'', ''make'']. str_includes q k
         then ''CREATE''
         else if \<exists>k \<in> set [''delete'', ''remove'', ''drop'']. str_includes q k
         then ''DELETE''
         else if \<exists>k \<in> set [''update'', ''edit'', ''change'', ''modify'', ''mark'', ''complete'',
                               ''finish'', ''done'', ''set'']. str_includes q k
         then ''UPDATE''
         else ''READ'')) \<and>
   classifyIntent ''mark task as done'' = ''UPDATE''"
proof (intro conjI impI)
  show "classifyIntent ''mark task as done'' = ''UPDATE''"
    by code_simp
next
  assume "\<not> (str_includes q ''show'' \<or> str_includes q ''list'' \<or> str_includes q ''display'' \<or>
       str_includes q ''get'') \<and>
    \<not> (str_includes q ''mark'' \<and> (str_includes q ''done'' \<or> str_includes q ''complete'')) \<and>
    \<not> (str_includes q ''finish'' \<or> (str_includes q ''set'' \<and> str_includes q ''done''))"
  then show "classifyIntent q =
        (if \<exists>k \<in> set [''add'', ''create'', ''new'', ''insert'', ''make'']. str_includes q k
         then ''CREATE''
         else if \<exists>k \<in> set [''delete'', ''remove'', ''drop'']. str_includes q k
         then ''DELETE''
         else if \<exists>k \<in> set [''update'', ''edit'', ''change'', ''modify'', ''mark'', ''complete'',
                               ''finish'', ''done'', ''set'']. str_includes q k
         then ''UPDATE''
         else ''READ'')"
    by (elim conjE) (rule classifyIntent_single)
qed (use classifyIntent_range classifyIntent_default classifyIntent_read_first
       classifyIntent_mark_done classifyIntent_finish in blast)+

theorem classifyIntent_total_witness:
  "classifyIntent ''hello world'' = ''READ'' \<and> classifyIntent ''show me mark done'' = ''READ'' \<and>
   classifyIntent ''mark it complete'' = ''UPDATE'' \<and>
   classifyIntent ''finish the report'' = ''UPDATE'' \<and>
   classifyIntent ''set it to done'' = ''UPDATE'' \<and>
   classifyIntent ''delete new task'' = ''CREATE'' \<and>
   classifyIntent ''remove and edit task'' = ''DELETE'' \<and>
   classifyIntent ''edit task'' = ''UPDATE'' \<and>
   classifyIntent ''find tasks'' = ''READ''"
proof -
  have a: "\<forall>k \<in> set [''add'', ''create'', ''new'', ''insert'', ''make'', ''delete'', ''remove'', ''drop'',
                 ''update'', ''edit'', ''change'', ''modify'', ''mark'', ''complete'', ''finish'',
                 ''done'', ''set'', ''list'', ''show'', ''get'', ''find'', ''select'', ''display''].
        \<not> str_includes ''hello world'' k"
    by code_simp
  have b: "str_includes ''show me mark done'' ''show''" by code_simp
  have c: "\<not> (str_includes ''mark it complete'' ''show'' \<or> str_includes ''mark it complete'' ''list'' \<or>
       str_includes ''mark it complete'' ''display'' \<or> str_includes ''mark it complete'' ''get'') \<and>
    str_includes ''mark it complete'' ''mark'' \<and>
    (str_includes ''mark it complete'' ''done'' \<or> str_includes ''mark it complete'' ''complete'')"
    by code_simp
  have 1: "classifyIntent ''hello world'' = ''READ''"
    using a classifyIntent_total[of "''hello world''"] by (elim conjE) (erule mp)
  have 2: "classifyIntent ''show me mark done'' = ''READ''"
    using b classifyIntent_total[of "''show me mark done''"] by (elim conjE) (erule mp, erule disjI1)
  have 3: "classifyIntent ''mark it complete'' = ''UPDATE''"
    using c classifyIntent_total[of "''mark it complete''"] by (elim conjE) (erule mp, intro conjI; assumption)
  have h4: "\<not> (str_includes ''finish the report'' ''show'' \<or> str_includes ''finish the report'' ''list'' \<or> str_includes ''finish the report'' ''display'' \<or>
       str_includes ''finish the report'' ''get'') \<and>
    (str_includes ''finish the report'' ''finish'' \<or> (str_includes ''finish the report'' ''set'' \<and> str_includes ''finish the report'' ''done''))"
    by code_simp
  have 4: "classifyIntent ''finish the report'' = ''UPDATE''"
    by (rule mp[OF classifyIntent_total[of "''finish the report''", THEN conjunct2, THEN conjunct2, THEN conjunct2, THEN conjunct2, THEN conjunct1] h4])
  have h5: "\<not> (str_includes ''set it to done'' ''show'' \<or> str_includes ''set it to done'' ''list'' \<or> str_includes ''set it to done'' ''display'' \<or>
       str_includes ''set it to done'' ''get'') \<and>
    (str_includes ''set it to done'' ''finish'' \<or> (str_includes ''set it to done'' ''set'' \<and> str_includes ''set it to done'' ''done''))"
    by code_simp
  have 5: "classifyIntent ''set it to done'' = ''UPDATE''"
    by (rule mp[OF classifyIntent_total[of "''set it to done''", THEN conjunct2, THEN conjunct2, THEN conjunct2, THEN conjunct2, THEN conjunct1] h5])
  have h6: "\<not> (str_includes ''delete new task'' ''show'' \<or> str_includes ''delete new task'' ''list'' \<or> str_includes ''delete new task'' ''display'' \<or>
       str_includes ''delete new task'' ''get'') \<and>
    \<not> (str_includes ''delete new task'' ''mark'' \<and> (str_includes ''delete new task'' ''done'' \<or> str_includes ''delete new task'' ''complete'')) \<and>
    \<not> (str_includes ''delete new task'' ''finish'' \<or> (str_includes ''delete new task'' ''set'' \<and> str_includes ''delete new task'' ''done''))"
    by code_simp
  have t6: "(if \<exists>k \<in> set [''add'', ''create'', ''new'', ''insert'', ''make'']. str_includes ''delete new task'' k
         then ''CREATE''
         else if \<exists>k \<in> set [''delete'', ''remove'', ''drop'']. str_includes ''delete new task'' k
         then ''DELETE''
         else if \<exists>k \<in> set [''update'', ''edit'', ''change'', ''modify'', ''mark'', ''complete'',
                               ''finish'', ''done'', ''set'']. str_includes ''delete new task'' k
         then ''UPDATE''
         else ''READ'') = ''CREATE''"
    by code_simp
  have 6: "classifyIntent ''delete new task'' = ''CREATE''"
    using mp[OF classifyIntent_total[of "''delete new task''", THEN conjunct2, THEN conjunct2, THEN conjunct2, THEN conjunct2, THEN conjunct2, THEN conjunct1] h6] unfolding t6 .
  have h7: "\<not> (str_includes ''remove and edit task'' ''show'' \<or> str_includes ''remove and edit task'' ''list'' \<or> str_includes ''remove and edit task'' ''display'' \<or>
       str_includes ''remove and edit task'' ''get'') \<and>
    \<not> (str_includes ''remove and edit task'' ''mark'' \<and> (str_includes ''remove and edit task'' ''done'' \<or> str_includes ''remove and edit task'' ''complete'')) \<and>
    \<not> (str_includes ''remove and edit task'' ''finish'' \<or> (str_includes ''remove and edit task'' ''set'' \<and> str_includes ''remove and edit task'' ''done''))"
    by code_simp
  have t7: "(if \<exists>k \<in> set [''add'', ''create'', ''new'', ''insert'', ''make'']. str_includes ''remove and edit task'' k
         then ''CREATE''
         else if \<exists>k \<in> set [''delete'', ''remove'', ''drop'']. str_includes ''remove and edit task'' k
         then ''DELETE''
         else if \<exists>k \<in> set [''update'', ''edit'', ''change'', ''modify'', ''mark'', ''complete'',
                               ''finish'', ''done'', ''set'']. str_includes ''remove and edit task'' k
         then ''UPDATE''
         else ''READ'') = ''DELETE''"
    by code_simp
  have 7: "classifyIntent ''remove and edit task'' = ''DELETE''"
    using mp[OF classifyIntent_total[of "''remove and edit task''", THEN conjunct2, THEN conjunct2, THEN conjunct2, THEN conjunct2, THEN conjunct2, THEN conjunct1] h7] unfolding t7 .
  have h8: "\<not> (str_includes ''edit task'' ''show'' \<or> str_includes ''edit task'' ''list'' \<or> str_includes ''edit task'' ''display'' \<or>
       str_includes ''edit task'' ''get'') \<and>
    \<not> (str_includes ''edit task'' ''mark'' \<and> (str_includes ''edit task'' ''done'' \<or> str_includes ''edit task'' ''complete'')) \<and>
    \<not> (str_includes ''edit task'' ''finish'' \<or> (str_includes ''edit task'' ''set'' \<and> str_includes ''edit task'' ''done''))"
    by code_simp
  have t8: "(if \<exists>k \<in> set [''add'', ''create'', ''new'', ''insert'', ''make'']. str_includes ''edit task'' k
         then ''CREATE''
         else if \<exists>k \<in> set [''delete'', ''remove'', ''drop'']. str_includes ''edit task'' k
         then ''DELETE''
         else if \<exists>k \<in> set [''update'', ''edit'', ''change'', ''modify'', ''mark'', ''complete'',
                               ''finish'', ''done'', ''set'']. str_includes ''edit task'' k
         then ''UPDATE''
         else ''READ'') = ''UPDATE''"
    by code_simp
  have 8: "classifyIntent ''edit task'' = ''UPDATE''"
    using mp[OF classifyIntent_total[of "''edit task''", THEN conjunct2, THEN conjunct2, THEN conjunct2, THEN conjunct2, THEN conjunct2, THEN conjunct1] h8] unfolding t8 .
  have h9: "\<not> (str_includes ''find tasks'' ''show'' \<or> str_includes ''find tasks'' ''list'' \<or> str_includes ''find tasks'' ''display'' \<or>
       str_includes ''find tasks'' ''get'') \<and>
    \<not> (str_includes ''find tasks'' ''mark'' \<and> (str_includes ''find tasks'' ''done'' \<or> str_includes ''find tasks'' ''complete'')) \<and>
    \<not> (str_includes ''find tasks'' ''finish'' \<or> (str_includes ''find tasks'' ''set'' \<and> str_includes ''find tasks'' ''done''))"
    by code_simp
  have t9: "(if \<exists>k \<in> set [''add'', ''create'', ''new'', ''insert'', ''make'']. str_includes ''find tasks'' k
         then ''CREATE''
         else if \<exists>k \<in> set [''delete'', ''remove'', ''drop'']. str_includes ''find tasks'' k
         then ''DELETE''
         else if \<exists>k \<in> set [''update'', ''edit'', ''change'', ''modify'', ''mark'', ''complete'',
                               ''finish'', ''done'', ''set'']. str_includes ''find tasks'' k
         then ''UPDATE''
         else ''READ'') = ''READ''"
    by code_simp
  have 9: "classifyIntent ''find tasks'' = ''READ''"
    using mp[OF classifyIntent_total[of "''find tasks''", THEN conjunct2, THEN conjunct2, THEN conjunct2, THEN conjunct2, THEN conjunct2, THEN conjunct1] h9] unfolding t9 .
  from 1 2 3 4 5 6 7 8 9 show ?thesis by (intro conjI)
qed

lemma delete_empty_id_where:
  "deleteWhere (''DELETE FROM todos WHERE id = '' @ [sq, sq]) = Inr (''id = '' @ [sq, sq])"
  by code_simp

lemma delete_empty_id_filters: "deleteFilters (''id = '' @ [sq, sq]) = Inr []"
  by code_simp

lemma delete_missing_id_where: "deleteWhere ''DELETE FROM todos WHERE id ='' = Inr ''id =''"
  by code_simp

lemma delete_missing_id_filters: "deleteFilters ''id ='' = Inr []"
  by code_simp

lemma update_empty_id_parts:
  "updateParts (''UPDATE todos SET completed = true WHERE id = '' @ [sq, sq]) =
   Inr (''completed'', VBool True, ''id = '' @ [sq, sq])"
  by code_simp

lemma update_empty_id_cond: "str_includes (''id = '' @ [sq, sq]) ''id ='' = True"
  by code_simp

lemma update_empty_id_match: "re_match False idPattern (''id = '' @ [sq, sq]) = None"
  by code_simp

lemma update_subquery_parts:
  "updateParts ''UPDATE todos SET completed = true WHERE id IN (SELECT id FROM todos ORDER BY created_at LIMIT 1)'' =
   Inr (''completed'', VBool True, ''id IN (SELECT id FROM todos ORDER BY created_at LIMIT 1)'')"
  by code_simp

lemma update_subquery_cond:
  "str_includes ''id IN (SELECT id FROM todos ORDER BY created_at LIMIT 1)'' ''id ='' = False"
  "str_includes ''id IN (SELECT id FROM todos ORDER BY created_at LIMIT 1)'' ''title ='' = False"
  "str_includes ''id IN (SELECT id FROM todos ORDER BY created_at LIMIT 1)'' ''title LIKE'' = False"
  "str_includes ''id IN (SELECT id FROM todos ORDER BY created_at LIMIT 1)'' ''ORDER BY'' = True"
  "str_includes ''id IN (SELECT id FROM todos ORDER BY created_at LIMIT 1)'' ''LIMIT'' = True"
  by code_simp+

lemma delete_unfiltered:
  assumes "fault st = None"
  shows "(case store_delete [] st of
            (Inl e, st') \<Rightarrow> (Inl (''Delete failed: '' @ e), st')
          | (Inr u, st') \<Rightarrow> getAllTodos st') =
         (Inr \<lparr>l_todos = [], l_count = 0, l_message = ''Operation completed successfully''\<rparr>,
          st\<lparr>rows := [], calls := calls st @ [CDelete [], CSelect []]\<rparr>)"
  using assms
  by (simp add: store_delete_def getAllTodos_def store_select_def called_def selected_def
      newest_first_def)

lemma update_unfiltered:
  assumes "fault st = None"
  shows "(case store_update ''completed'' (VBool True) [] st of
            (Inl e, st') \<Rightarrow> (Inl (''Update failed: '' @ e), st')
          | (Inr data, st') \<Rightarrow> getAllTodos st') =
         (Inr \<lparr>l_todos = newest_first (map (\<lambda>r. r\<lparr>completed := True\<rparr>) (rows st)),
               l_count = length (rows st), l_message = ''Operation completed successfully''\<rparr>,
          st\<lparr>rows := map (\<lambda>r. r\<lparr>completed := True\<rparr>) (rows st),
             calls := calls st @ [CUpdate ''completed'' (VBool True) [], CSelect []]\<rparr>)"
  using assms
  by (simp add: store_update_def getAllTodos_def store_select_def called_def selected_def
      newest_first_def list_ex_iff)

section \<open>WHERE clauses that filter nothing\<close>

text \<open>
  C2. There are DELETE and UPDATE statements with a WHERE clause for which the handler
  neither raises an error nor puts a filter on its query. For \<open>WHERE id = ''\<close> and
  \<open>WHERE id =\<close> the clause contains \<open>id =\<close>, the id pattern finds no match, and the store
  receives a delete (an update) with no filter, which applies to every row. The same
  happens in the subquery branch of the UPDATE handler when the table is empty.
\<close>

theorem where_clause_without_filter:
  "fault st = None \<longrightarrow>
     handleDeleteQuery (''DELETE FROM todos WHERE id = '' @ [sq, sq]) st =
       (Inr \<lparr>l_todos = [], l_count = 0, l_message = ''Operation completed successfully''\<rparr>,
        st\<lparr>rows := [], calls := calls st @ [CDelete [], CSelect []]\<rparr>) \<and>
     handleDeleteQuery ''DELETE FROM todos WHERE id ='' st =
       (Inr \<lparr>l_todos = [], l_count = 0, l_message = ''Operation completed successfully''\<rparr>,
        st\<lparr>rows := [], calls := calls st @ [CDelete [], CSelect []]\<rparr>) \<and>
     handleUpdateQuery (''UPDATE todos SET completed = true WHERE id = '' @ [sq, sq]) st =
       (Inr \<lparr>l_todos = newest_first (map (\<lambda>r. r\<lparr>completed := True\<rparr>) (rows st)),
             l_count = length (rows st), l_message = ''Operation completed successfully''\<rparr>,
        st\<lparr>rows := map (\<lambda>r. r\<lparr>completed := True\<rparr>) (rows st),
           calls := calls st @ [CUpdate ''completed'' (VBool True) [], CSelect []]\<rparr>) \<and>
     (rows st = [] \<longrightarrow>
        handleUpdateQuery
          ''UPDATE todos SET completed = true WHERE id IN (SELECT id FROM todos ORDER BY created_at LIMIT 1)''
          st =
        (Inr \<lparr>l_todos = [], l_count = 0, l_message = ''Operation completed successfully''\<rparr>,
         st\<lparr>calls := calls st @ [CSelectFirstId, CUpdate ''completed'' (VBool True) [], CSelect []]\<rparr>))"
proof (intro impI conjI)
  assume f: "fault st = None"
  show "handleDeleteQuery (''DELETE FROM todos WHERE id = '' @ [sq, sq]) st =
       (Inr \<lparr>l_todos = [], l_count = 0, l_message = ''Operation completed successfully''\<rparr>,
        st\<lparr>rows := [], calls := calls st @ [CDelete [], CSelect []]\<rparr>)"
    unfolding handleDeleteQuery_def delete_empty_id_where sum.case delete_empty_id_filters
    by (rule delete_unfiltered[OF f])
  show "handleDeleteQuery ''DELETE FROM todos WHERE id ='' st =
       (Inr \<lparr>l_todos = [], l_count = 0, l_message = ''Operation completed successfully''\<rparr>,
        st\<lparr>rows := [], calls := calls st @ [CDelete [], CSelect []]\<rparr>)"
    unfolding handleDeleteQuery_def delete_missing_id_where sum.case delete_missing_id_filters
    by (rule delete_unfiltered[OF f])
  have uf: "updateFilters (''id = '' @ [sq, sq]) st = (Inr [], st)"
    unfolding updateFilters_def update_empty_id_cond update_empty_id_match by simp
  show "handleUpdateQuery (''UPDATE todos SET completed = true WHERE id = '' @ [sq, sq]) st =
       (Inr \<lparr>l_todos = newest_first (map (\<lambda>r. r\<lparr>completed := True\<rparr>) (rows st)),
             l_count = length (rows st), l_message = ''Operation completed successfully''\<rparr>,
        st\<lparr>rows := map (\<lambda>r. r\<lparr>completed := True\<rparr>) (rows st),
           calls := calls st @ [CUpdate ''completed'' (VBool True) [], CSelect []]\<rparr>)"
    unfolding handleUpdateQuery_def update_empty_id_parts sum.case prod.case uf
    by (rule update_unfiltered[OF f])
next
  assume f: "fault st = None" and e: "rows st = []"
  have uf: "updateFilters ''id IN (SELECT id FROM todos ORDER BY created_at LIMIT 1)'' st =
      (Inr [], called CSelectFirstId st)"
    unfolding updateFilters_def update_subquery_cond
    using f e by (simp add: store_first_id_def oldest_first_def)
  have f': "fault (called CSelectFirstId st) = None" using f by (simp add: called_def)
  show "handleUpdateQuery
          ''UPDATE todos SET completed = true WHERE id IN (SELECT id FROM todos ORDER BY created_at LIMIT 1)''
          st =
        (Inr \<lparr>l_todos = [], l_count = 0, l_message = ''Operation completed successfully''\<rparr>,
         st\<lparr>calls := calls st @ [CSelectFirstId, CUpdate ''completed'' (VBool True) [], CSelect []]\<rparr>)"
    unfolding handleUpdateQuery_def update_subquery_parts sum.case prod.case uf
    unfolding update_unfiltered[OF f']
    using e by (simp add: called_def newest_first_def)
qed

theorem where_clause_without_filter_witness:
  "handleDeleteQuery (''DELETE FROM todos WHERE id = '' @ [sq, sq]) sample_store =
     (Inr \<lparr>l_todos = [], l_count = 0, l_message = ''Operation completed successfully''\<rparr>,
      sample_store\<lparr>rows := [], calls := [CDelete [], CSelect []]\<rparr>) \<and>
   handleUpdateQuery
     ''UPDATE todos SET completed = true WHERE id IN (SELECT id FROM todos ORDER BY created_at LIMIT 1)''
     (sample_store\<lparr>rows := []\<rparr>) =
     (Inr \<lparr>l_todos = [], l_count = 0, l_message = ''Operation completed successfully''\<rparr>,
      sample_store\<lparr>rows := [], calls := [CSelectFirstId, CUpdate ''completed'' (VBool True) [], CSelect []]\<rparr>)"
  using where_clause_without_filter[of sample_store]
    where_clause_without_filter[of "sample_store\<lparr>rows := []\<rparr>"]
  by (simp add: sample_store_def)

lemma POST_reaches_validation:
  assumes "SUPABASE_URL cfg \<noteq> []" "SUPABASE_SERVICE_ROLE_KEY cfg \<noteq> []" "GROQ_API_KEY cfg \<noteq> []"
    and "query \<noteq> []"
    and "generateSQLWithGroq groq (preprocessQuery query) (classifyIntent (preprocessQuery query))
           = Inr sqlQuery"
  shows "POST cfg (Some query) groq json_parse gemini st =
     (let qs = \<lparr>q_original = Some query, q_preprocessed = Some (preprocessQuery query),
                 q_intent = Some (classifyIntent (preprocessQuery query)),
                 q_generatedSQL = Some sqlQuery, q_validatedSQL = None\<rparr>;
          validation = validateSQLWithGemini json_parse gemini query sqlQuery;
          finalSQL = (if truthy (v_suggestion validation)
                      then cap_or_empty (v_suggestion validation) else sqlQuery);
          finalSQL = (if \<not> v_valid validation \<and> \<not> truthy (v_suggestion validation)
                      then fixSQLSyntax sqlQuery query else finalSQL);
          qs = qs\<lparr>q_validatedSQL := Some finalSQL\<rparr>
      in if \<not> v_valid validation \<and> \<not> truthy (v_suggestion validation) \<and> finalSQL = sqlQuery
         then ((failure 400
                 (''SQL validation failed: '' @ show_opt (v_reason validation) @
                  ''. Unable to auto-correct.'') qs)
                 \<lparr>r_sql := Some sqlQuery, r_suggestion := Some finalSQL\<rparr>, st)
         else
           (case executeSQLQuery finalSQL st of
              (Inl e, st') \<Rightarrow> (failure 500 e qs, st')
            | (Inr result, st') \<Rightarrow>
                (\<lparr>r_status = 200, r_success = True,
                  r_message = Some (''Successfully processed: '' @ [dq] @ query @ [dq]),
                  r_sql = Some finalSQL, r_suggestion = None, r_data = Some result,
                  r_error = None, r_queries = qs\<rparr>, st')))"
  using assms
  by (simp add: POST_def truthy_def cap_or_empty_def no_queries_def Let_def)

section \<open>The decision after validation\<close>

text \<open>
  C3. For a request that reaches the validation stage: when the verdict is invalid and has
  no suggestion, the repairer is applied to the generated statement, and if that changes
  nothing the request ends with status 400, the verdict's reason in the error, and the
  store untouched. In every other case the statement executed is the suggestion when
  there is one, else the repaired statement when the verdict is invalid, else the
  generated statement.
\<close>

theorem POST_after_validation:
  assumes "SUPABASE_URL cfg \<noteq> []" "SUPABASE_SERVICE_ROLE_KEY cfg \<noteq> []" "GROQ_API_KEY cfg \<noteq> []"
    and "query \<noteq> []"
    and "generateSQLWithGroq groq (preprocessQuery query) (classifyIntent (preprocessQuery query))
           = Inr sqlQuery"
    and "validation = validateSQLWithGemini json_parse gemini query sqlQuery"
    and "outcome = POST cfg (Some query) groq json_parse gemini st"
    and "finalSQL = (if truthy (v_suggestion validation) then cap_or_empty (v_suggestion validation)
                     else if \<not> v_valid validation then fixSQLSyntax sqlQuery query
                     else sqlQuery)"
  shows "(\<not> v_valid validation \<and> \<not> truthy (v_suggestion validation) \<and>
          fixSQLSyntax sqlQuery query = sqlQuery \<longrightarrow>
            r_status (fst outcome) = 400 \<and> \<not> r_success (fst outcome) \<and>
            r_error (fst outcome) =
              Some (''SQL validation failed: '' @ show_opt (v_reason validation) @
                    ''. Unable to auto-correct.'') \<and>
            snd outcome = st) \<and>
         (\<not> (\<not> v_valid validation \<and> \<not> truthy (v_suggestion validation) \<and>
             fixSQLSyntax sqlQuery query = sqlQuery) \<longrightarrow>
            snd outcome = snd (executeSQLQuery finalSQL st) \<and>
            (case fst (executeSQLQuery finalSQL st) of
               Inr result \<Rightarrow>
                 r_status (fst outcome) = 200 \<and> r_success (fst outcome) \<and>
                 r_sql (fst outcome) = Some finalSQL \<and> r_data (fst outcome) = Some result
             | Inl e \<Rightarrow>
                 r_status (fst outcome) = 500 \<and> \<not> r_success (fst outcome) \<and>
                 r_error (fst outcome) = Some e))"
proof -
  note p = POST_reaches_validation[OF assms(1-5), of json_parse gemini st, folded assms(6)]
  show ?thesis
  proof (cases "\<not> v_valid validation \<and> \<not> truthy (v_suggestion validation) \<and>
          fixSQLSyntax sqlQuery query = sqlQuery")
    case True
    then show ?thesis
      unfolding assms(7) p by (simp add: Let_def failure_def)
  next
    case False
    obtain res st' where ex: "executeSQLQuery finalSQL st = (res, st')"
      by (cases "executeSQLQuery finalSQL st")
    from False have fin: "(if \<not> v_valid validation \<and> \<not> truthy (v_suggestion validation)
                      then fixSQLSyntax sqlQuery query
                      else (if truthy (v_suggestion validation)
                      then cap_or_empty (v_suggestion validation) else sqlQuery)) = finalSQL"
      unfolding assms(8) by auto
    from False have cond: "\<not> (\<not> v_valid validation \<and> \<not> truthy (v_suggestion validation) \<and>
        finalSQL = sqlQuery)"
      unfolding assms(8) by auto
    show ?thesis
      unfolding assms(7) p Let_def fin using False cond ex
      by (cases res) (simp_all add: failure_def)
  qed
qed

theorem POST_after_validation_witness:
  "r_status (fst (POST sample_config (Some ''drop everything'') (Reply ''DROP TABLE todos'')
       Map.empty (Failed ''unavailable'') sample_store)) = 400 \<and>
   snd (POST sample_config (Some ''drop everything'') (Reply ''DROP TABLE todos'')
       Map.empty (Failed ''unavailable'') sample_store) = sample_store \<and>
   r_status (fst (POST sample_config (Some ''add a task to buy milk'')
       (Reply ''INSERT INTO todos (title, completed) VALUES (buy milk, false)'')
       Map.empty (Failed ''unavailable'') sample_store)) = 200 \<and>
   r_sql (fst (POST sample_config (Some ''add a task to buy milk'')
       (Reply ''INSERT INTO todos (title, completed) VALUES (buy milk, false)'')
       Map.empty (Failed ''unavailable'') sample_store)) =
     Some ''INSERT INTO todos (title, completed) VALUES ('Buy milk', false)'' \<and>
   map title (rows (snd (POST sample_config (Some ''add a task to buy milk'')
       (Reply ''INSERT INTO todos (title, completed) VALUES (buy milk, false)'')
       Map.empty (Failed ''unavailable'') sample_store))) =
     [''Learn ShadCN components'', ''Build NLP-to-SQL app'', ''Buy milk'']"
proof -
  have c: "SUPABASE_URL sample_config \<noteq> []" "SUPABASE_SERVICE_ROLE_KEY sample_config \<noteq> []"
    "GROQ_API_KEY sample_config \<noteq> []"
    by (simp_all add: sample_config_def)
  have q1: "''drop everything'' \<noteq> []" by simp
  have g1: "generateSQLWithGroq (Reply ''DROP TABLE todos'') (preprocessQuery ''drop everything'')
      (classifyIntent (preprocessQuery ''drop everything'')) = Inr ''DROP TABLE todos''"
    by code_simp
  have v1: "validateSQLWithGemini Map.empty (Failed ''unavailable'') ''drop everything''
      ''DROP TABLE todos'' =
      \<lparr>v_valid = False, v_reason = Some ''Query contains potentially dangerous operations'',
       v_suggestion = None\<rparr>"
    by code_simp
  have f1: "fixSQLSyntax ''DROP TABLE todos'' ''drop everything'' = ''DROP TABLE todos''"
    by code_simp
  have a: "r_status (fst (POST sample_config (Some ''drop everything'') (Reply ''DROP TABLE todos'')
       Map.empty (Failed ''unavailable'') sample_store)) = 400 \<and>
   snd (POST sample_config (Some ''drop everything'') (Reply ''DROP TABLE todos'')
       Map.empty (Failed ''unavailable'') sample_store) = sample_store"
    using POST_after_validation[OF c q1 g1 refl refl refl, of Map.empty "Failed ''unavailable''" sample_store]
    by (simp add: v1 f1 truthy_def)
  have q2: "''add a task to buy milk'' \<noteq> []" by simp
  have g2: "generateSQLWithGroq (Reply ''INSERT INTO todos (title, completed) VALUES (buy milk, false)'')
      (preprocessQuery ''add a task to buy milk'')
      (classifyIntent (preprocessQuery ''add a task to buy milk'')) =
      Inr ''INSERT INTO todos (title, completed) VALUES ('Buy milk', false)''"
    by code_simp
  have v2: "validateSQLWithGemini Map.empty (Failed ''unavailable'') ''add a task to buy milk''
      ''INSERT INTO todos (title, completed) VALUES ('Buy milk', false)'' =
      \<lparr>v_valid = True, v_reason = None, v_suggestion = None\<rparr>"
    by code_simp
  have e2: "executeSQLQuery ''INSERT INTO todos (title, completed) VALUES ('Buy milk', false)''
      sample_store =
      (Inr \<lparr>l_todos = [\<lparr>todo_id = 3, title = ''Buy milk'', completed = False, created_at = 30\<rparr>,
              \<lparr>todo_id = 2, title = ''Build NLP-to-SQL app'', completed = True, created_at = 20\<rparr>,
              \<lparr>todo_id = 1, title = ''Learn ShadCN components'', completed = False, created_at = 10\<rparr>],
            l_count = 3, l_message = ''Operation completed successfully''\<rparr>,
       \<lparr>rows = [\<lparr>todo_id = 1, title = ''Learn ShadCN components'', completed = False, created_at = 10\<rparr>,
              \<lparr>todo_id = 2, title = ''Build NLP-to-SQL app'', completed = True, created_at = 20\<rparr>,
              \<lparr>todo_id = 3, title = ''Buy milk'', completed = False, created_at = 30\<rparr>],
        next_id = 4, clock = 31, fault = None,
        calls = [CInsert ''Buy milk'' False, CSelect []]\<rparr>)"
    by code_simp
  have b: "r_status (fst (POST sample_config (Some ''add a task to buy milk'')
       (Reply ''INSERT INTO todos (title, completed) VALUES (buy milk, false)'')
       Map.empty (Failed ''unavailable'') sample_store)) = 200 \<and>
   r_sql (fst (POST sample_config (Some ''add a task to buy milk'')
       (Reply ''INSERT INTO todos (title, completed) VALUES (buy milk, false)'')
       Map.empty (Failed ''unavailable'') sample_store)) =
     Some ''INSERT INTO todos (title, completed) VALUES ('Buy milk', false)'' \<and>
   map title (rows (snd (POST sample_config (Some ''add a task to buy milk'')
       (Reply ''INSERT INTO todos (title, completed) VALUES (buy milk, false)'')
       Map.empty (Failed ''unavailable'') sample_store))) =
     [''Learn ShadCN components'', ''Build NLP-to-SQL app'', ''Buy milk'']"
    using POST_after_validation[OF c q2 g2 refl refl refl, of Map.empty "Failed ''unavailable''" sample_store]
    by (simp add: v2 e2 truthy_def)
  from a b show ?thesis by (intro conjI) (elim conjE, assumption)+
qed

section \<open>The fallback verdict\<close>

text \<open>
  C4, as stated, says that a DELETE with a WHERE clause is not flagged as dangerous by the
  fallback. The dangerous keywords are matched as substrings, so the statement
  \<open>DELETE FROM todos WHERE id = 1\<close> contains \<open>delete from todos\<close> and is flagged.
\<close>

theorem fallback_flags_qualified_delete:
  "validateSQLWithGemini Map.empty (Failed ''unavailable'') ''delete task 1''
     ''DELETE FROM todos WHERE id = 1'' =
   \<lparr>v_valid = False, v_reason = Some ''Query contains potentially dangerous operations'',
    v_suggestion = None\<rparr>"
  by code_simp

lemma dangerous_lower:
  "map toLowerCase [''drop'', ''alter'', ''truncate'', ''delete from todos'', ''update todos set'']
   = [''drop'', ''alter'', ''truncate'', ''delete from todos'', ''update todos set'']"
  by code_simp

text \<open>
  C4, amended. When the provider call fails or its reply has no JSON block, the verdict is
  valid exactly when the statement has no unquoted VALUES clause, its lower-case text
  contains none of \<open>drop\<close>, \<open>alter\<close>, \<open>truncate\<close>, \<open>delete from todos\<close>,
  \<open>update todos set\<close> (with or without a WHERE clause after them), and it is not empty
  after trimming. With an unquoted VALUES clause the suggestion is the repaired statement;
  otherwise there is no suggestion and the reason says whether a keyword was found.
\<close>

theorem fallback_verdict:
  assumes "gemini = Failed e \<or> (\<exists>text. gemini = Reply text \<and> re_match False jsonBlock text = None)"
    and "v = validateSQLWithGemini json_parse gemini originalQuery sqlQuery"
    and "dangerous = (\<exists>k \<in> set [''drop'', ''alter'', ''truncate'', ''delete from todos'',
                              ''update todos set'']. str_includes (toLowerCase sqlQuery) k)"
  shows "(v_valid v \<longleftrightarrow>
            \<not> re_test True unquotedValues sqlQuery \<and> \<not> dangerous \<and> trim sqlQuery \<noteq> []) \<and>
         (re_test True unquotedValues sqlQuery \<longrightarrow>
            v_suggestion v = Some (fixSQLSyntax sqlQuery originalQuery)) \<and>
         (\<not> re_test True unquotedValues sqlQuery \<longrightarrow>
            v_suggestion v = None \<and>
            v_reason v = (if dangerous
                          then Some ''Query contains potentially dangerous operations''
                          else None))"
proof -
  from assms(1) have fb: "v = fallbackValidation originalQuery sqlQuery"
    unfolding assms(2) validateSQLWithGemini_def by auto
  have d: "list_ex (\<lambda>keyword. str_includes (toLowerCase sqlQuery) (toLowerCase keyword))
             [''drop'', ''alter'', ''truncate'', ''delete from todos'', ''update todos set'']
           = dangerous"
    using dangerous_lower unfolding assms(3) by (simp del: toLowerCase_def)
  show ?thesis
    unfolding fb fallbackValidation_def Let_def d by simp
qed

theorem fallback_verdict_witness:
  "v_valid (validateSQLWithGemini Map.empty (Failed ''unavailable'') ''show all tasks''
      ''SELECT * FROM todos'') \<and>
   \<not> v_valid (validateSQLWithGemini Map.empty (Reply ''no verdict'') ''delete task 1''
      ''DELETE FROM todos WHERE id = 1'') \<and>
   v_suggestion (validateSQLWithGemini Map.empty (Failed ''unavailable'') ''add a task to buy milk''
      ''INSERT INTO todos (title, completed) VALUES (buy milk, false)'') =
     Some ''INSERT INTO todos (title, completed) VALUES ('Buy milk', false)''"
proof -
  have h1: "Failed ''unavailable'' = Failed ''unavailable'' \<or>
     (\<exists>text. Failed ''unavailable'' = Reply text \<and> re_match False jsonBlock text = None)"
    by simp
  have n: "re_match False jsonBlock ''no verdict'' = None" by code_simp
  have h2: "Reply ''no verdict'' = Failed e \<or>
     (\<exists>text. Reply ''no verdict'' = Reply text \<and> re_match False jsonBlock text = None)" for e
    using n by simp
  have s1: "\<not> re_test True unquotedValues ''SELECT * FROM todos''" by code_simp
  have s2: "\<not> (\<exists>k \<in> set [''drop'', ''alter'', ''truncate'', ''delete from todos'',
              ''update todos set'']. str_includes (toLowerCase ''SELECT * FROM todos'') k)"
    by code_simp
  have s3: "trim ''SELECT * FROM todos'' \<noteq> []" by code_simp
  have d1: "\<exists>k \<in> set [''drop'', ''alter'', ''truncate'', ''delete from todos'',
              ''update todos set'']. str_includes (toLowerCase ''DELETE FROM todos WHERE id = 1'') k"
    by code_simp
  have u1: "re_test True unquotedValues ''INSERT INTO todos (title, completed) VALUES (buy milk, false)''"
    by code_simp
  have f1: "fixSQLSyntax ''INSERT INTO todos (title, completed) VALUES (buy milk, false)''
      ''add a task to buy milk'' = ''INSERT INTO todos (title, completed) VALUES ('Buy milk', false)''"
    by code_simp
  have a: "v_valid (validateSQLWithGemini Map.empty (Failed ''unavailable'') ''show all tasks''
      ''SELECT * FROM todos'')"
    using fallback_verdict[OF h1 refl refl, of Map.empty "''show all tasks''" "''SELECT * FROM todos''"]
      s1 s2 s3 by blast
  have b: "\<not> v_valid (validateSQLWithGemini Map.empty (Reply ''no verdict'') ''delete task 1''
      ''DELETE FROM todos WHERE id = 1'')"
    using fallback_verdict[OF h2 refl refl, of Map.empty "''delete task 1''"
        "''DELETE FROM todos WHERE id = 1''"] d1 by blast
  have c: "v_suggestion (validateSQLWithGemini Map.empty (Failed ''unavailable'')
      ''add a task to buy milk''
      ''INSERT INTO todos (title, completed) VALUES (buy milk, false)'') =
     Some ''INSERT INTO todos (title, completed) VALUES ('Buy milk', false)''"
    using fallback_verdict[OF h1 refl refl, of Map.empty "''add a task to buy milk''"
        "''INSERT INTO todos (title, completed) VALUES (buy milk, false)''"] u1 f1 by simp
  from a b c show ?thesis by (intro conjI)
qed

lemma ms_Seq_iff:
  "st' \<in> set (ms ic (Seq a b) st) \<longleftrightarrow> (\<exists>st1 \<in> set (ms ic a st). st' \<in> set (ms ic b st1))"
  by auto

lemma ms_caps_frame:
  "st' \<in> set (ms ic r st) \<Longrightarrow> n \<notin> set (groups r) \<Longrightarrow> snd (snd st') n = snd (snd st) n"
proof (induction ic r st arbitrary: st' rule: ms.induct)
  case (1 ic st)
  then show ?case by simp
next
  case (2 ic d st)
  then show ?case by (auto dest!: step_char_D)
next
  case (3 ic st)
  then show ?case by (auto dest!: step_char_D)
next
  case (4 ic cs st)
  then show ?case by (auto dest!: step_char_D)
next
  case (5 ic cs st)
  then show ?case by (auto dest!: step_char_D)
next
  case (6 ic a b st)
  from 6(3) obtain st1 where a: "st1 \<in> set (ms ic a st)" and b: "st' \<in> set (ms ic b st1)"
    by auto
  from 6(4) have na: "n \<notin> set (groups a)" and nb: "n \<notin> set (groups b)" by auto
  from 6(1)[OF a na] 6(2)[OF a b nb] show ?case by simp
next
  case (7 ic a b st)
  from 7(3) have "st' \<in> set (ms ic a st) \<or> st' \<in> set (ms ic b st)" by simp
  moreover from 7(4) have "n \<notin> set (groups a)" "n \<notin> set (groups b)" by auto
  ultimately show ?case using 7(1) 7(2) by blast
next
  case (8 ic a i s c)
  from 8(4) have na: "n \<notin> set (groups a)" by simp
  from 8(3) consider "st' = (i, s, c)"
    | st1 where "st1 \<in> set (ms ic a (i, s, reset (groups a) c))" "progress s st1"
        "st' \<in> set (ms ic (Star a) st1)"
    by (subst (asm) ms_Star) auto
  then show ?case
  proof cases
    case 1
    then show ?thesis by simp
  next
    case 2
    from 8(1)[OF 2(1) na] 8(2)[of st1 st'] 2 8(4) na show ?thesis by (simp add: reset_def)
  qed
next
  case (9 ic a i s c)
  from 9(4) have na: "n \<notin> set (groups a)" by simp
  from 9(3) consider "st' = (i, s, c)"
    | st1 where "st1 \<in> set (ms ic a (i, s, reset (groups a) c))" "progress s st1"
        "st' \<in> set (ms ic (LazyStar a) st1)"
    by (subst (asm) ms_LazyStar) auto
  then show ?case
  proof cases
    case 1
    then show ?thesis by simp
  next
    case 2
    from 9(1)[OF 2(1) na] 9(2)[of st1 st'] 2 9(4) na show ?thesis by (simp add: reset_def)
  qed
next
  case (10 ic a i s c)
  from 10(3) have na: "n \<notin> set (groups a)" by simp
  from 10(2) consider "st' = (i, s, c)" | "st' \<in> set (ms ic a (i, s, reset (groups a) c))"
    by auto
  then show ?case
  proof cases
    case 1
    then show ?thesis by simp
  next
    case 2
    from 10(1)[OF 2 na] na show ?thesis by (simp add: reset_def)
  qed
next
  case (11 ic m a i s c)
  from 11(3) have nm: "n \<noteq> m" and na: "n \<notin> set (groups a)" by auto
  from 11(2) obtain st1 where s1: "st1 \<in> set (ms ic a (i, s, c))"
    and e: "st' = (fst st1, fst (snd st1),
                   (snd (snd st1))(m \<mapsto> take (length s - length (fst (snd st1))) s))"
    by auto
  from 11(1)[OF s1 na] e nm show ?case by simp
next
  case (12 ic i s c)
  then show ?case by (auto split: if_splits)
next
  case (13 ic i s c)
  then show ?case by (auto split: if_splits)
qed

lemma ms_Str:
  "st' \<in> set (ms ic (Str w) st) \<Longrightarrow>
   \<exists>u. fst (snd st) = u @ fst (snd st') \<and> length u = length w \<and>
       (if ic then toUpperCase u = toUpperCase w else u = w) \<and>
       snd (snd st') = snd (snd st)"
proof (induction w arbitrary: st)
  case Nil
  then show ?case by simp
next
  case (Cons x xs)
  from Cons.prems obtain st1 where a: "st1 \<in> set (step_char (in_class ic (CChar x)) st)"
    and b: "st' \<in> set (ms ic (Str xs) st1)"
    by auto
  from step_char_D[OF a] obtain y where y: "fst (snd st) = y # fst (snd st1)"
    "in_class ic (CChar x) y" "snd (snd st1) = snd (snd st)" by blast
  from Cons.IH[OF b] obtain u where u: "fst (snd st1) = u @ fst (snd st')" "length u = length xs"
    "if ic then toUpperCase u = toUpperCase xs else u = xs" "snd (snd st') = snd (snd st1)"
    by blast
  show ?case
    using y u by (intro exI[of _ "y # u"]) (auto simp: toUpperCase_def split: if_splits)
qed

lemma ms_Seqs_snoc:
  "st' \<in> set (ms ic (Seqs (pre @ [r])) st) \<Longrightarrow>
   \<exists>st1 \<in> set (ms ic (Seqs pre) st). st' \<in> set (ms ic r st1)"
proof (induction pre arbitrary: st)
  case Nil
  then show ?case by simp
next
  case (Cons a pre)
  from Cons.prems obtain st0 where a: "st0 \<in> set (ms ic a st)"
    and b: "st' \<in> set (ms ic (Seqs (pre @ [r])) st0)" by auto
  from Cons.IH[OF b] obtain st1 where "st1 \<in> set (ms ic (Seqs pre) st0)" "st' \<in> set (ms ic r st1)"
    by blast
  with a show ?case by auto
qed

lemma groups_Seqs: "set (groups (Seqs rs)) = (\<Union>r \<in> set rs. set (groups r))"
  by (induction rs) auto

lemma groups_Str [simp]: "groups (Str w) = []"
  by (induction w) auto

lemma str_includes_upper_append:
  "str_includes (toUpperCase c) k \<Longrightarrow> str_includes (toUpperCase (a @ b @ c)) k"
  unfolding str_includes_def toUpperCase_def
  by (metis map_append sublist_appendI sublist_order.order.trans sublist_append_rightI
      sublist_append_leftI)

text \<open>An optional WHERE clause that captured something has consumed the keyword.\<close>

lemma where_tail_capture:
  assumes "st' \<in> set (ms True (Opt (Seqs [OneOrMore ws, Str ''WHERE'', OneOrMore ws,
                                          Group g (OneOrMore Dot)])) st)"
    and "snd (snd st) g = None" and "snd (snd st') g \<noteq> None"
  shows "str_includes (toUpperCase (fst (snd st))) ''WHERE''"
proof -
  obtain i s c where st: "st = (i, s, c)" by (cases st)
  let ?X = "Seqs [OneOrMore ws, Str ''WHERE'', OneOrMore ws, Group g (OneOrMore Dot)]"
  from assms(1) st assms(2,3)
  have "st' \<in> set (ms True ?X (i, s, reset (groups ?X) c))" by auto
  then obtain st1 st2 where 1: "st1 \<in> set (ms True (OneOrMore ws) (i, s, reset (groups ?X) c))"
    and 2: "st2 \<in> set (ms True (Str ''WHERE'') st1)"
    by (auto simp del: Str.simps)
  from ms_suffix[OF 1] obtain w1 where w1: "s = w1 @ fst (snd st1)" by auto
  from ms_Str[OF 2] obtain u where u: "fst (snd st1) = u @ fst (snd st2)"
    "toUpperCase u = toUpperCase ''WHERE''" by auto
  have up: "toUpperCase ''WHERE'' = ''WHERE''" by code_simp
  have eq: "toUpperCase s = toUpperCase w1 @ ''WHERE'' @ toUpperCase (fst (snd st2))"
    using w1 u up by (simp add: toUpperCase_def)
  show ?thesis unfolding st str_includes_def fst_conv snd_conv eq by (rule sublist_appendI)
qed

lemma where_pattern_capture:
  assumes "re_match True (Seqs (pre @ [Opt (Seqs [OneOrMore ws, Str ''WHERE'', OneOrMore ws,
                                                Group g (OneOrMore Dot)])])) sql = Some m"
    and "g \<notin> (\<Union>r \<in> set pre. set (groups r))"
    and "m_caps m g \<noteq> None"
  shows "str_includes (toUpperCase sql) ''WHERE''"
proof -
  let ?T = "Opt (Seqs [OneOrMore ws, Str ''WHERE'', OneOrMore ws, Group g (OneOrMore Dot)])"
  from search_from_Some[OF assms(1)[unfolded re_match_def]]
  obtain k st' sts where k: "k \<le> length sql"
    "ms True (Seqs (pre @ [?T])) (0 + k, drop k sql, Map.empty) = st' # sts"
    "m_caps m = snd (snd st')" by blast
  then have "st' \<in> set (ms True (Seqs (pre @ [?T])) (0 + k, drop k sql, Map.empty))" by simp
  from ms_Seqs_snoc[OF this] obtain st1 where
    1: "st1 \<in> set (ms True (Seqs pre) (0 + k, drop k sql, Map.empty))"
    and 2: "st' \<in> set (ms True ?T st1)" by blast
  from ms_caps_frame[OF 1, of g] assms(2) have c1: "snd (snd st1) g = None"
    by (simp add: groups_Seqs)
  from ms_suffix[OF 1] obtain w where w: "drop k sql = w @ fst (snd st1)" by auto
  from where_tail_capture[OF 2 c1] assms(3) k(3)
  have "str_includes (toUpperCase (fst (snd st1))) ''WHERE''" by simp
  then have "str_includes (toUpperCase (take k sql @ w @ fst (snd st1))) ''WHERE''"
    by (rule str_includes_upper_append)
  then show ?thesis using w by (metis append_take_drop_id)
qed

lemma truthy_Some: "truthy w \<Longrightarrow> w \<noteq> None"
  by (cases w) (auto simp: truthy_def)

lemma deleteWhere_needs_keyword:
  assumes "\<not> str_includes (toUpperCase sql) ''WHERE''"
  shows "deleteWhere sql = Inl ''Could not parse DELETE statement'' \<or>
         deleteWhere sql = Inl ''DELETE without WHERE clause is not allowed for safety''"
proof (cases "re_match True deletePattern sql")
  case None
  then show ?thesis by (simp add: deleteWhere_def)
next
  case (Some m)
  have p: "deletePattern = Seqs ([Str ''DELETE FROM todos''] @
      [Opt (Seqs [OneOrMore ws, Str ''WHERE'', OneOrMore ws, Group 1 (OneOrMore Dot)])])"
    by (simp add: deletePattern_def)
  have "m_caps m 1 = None"
  proof (rule ccontr)
    assume "m_caps m 1 \<noteq> None"
    from where_pattern_capture[OF Some[unfolded p] _ this] assms show False by simp
  qed
  then show ?thesis using Some by (simp add: deleteWhere_def truthy_def)
qed

lemma updateParts_needs_keyword:
  assumes "\<not> str_includes (toUpperCase sql) ''WHERE''"
  shows "updateParts sql = Inl ''Could not parse UPDATE statement'' \<or>
         updateParts sql = Inl ''UPDATE without WHERE clause is not allowed for safety''"
proof -
  have p1: "updatePattern = Seqs ([Str ''UPDATE todos SET'', OneOrMore ws,
     Group 1 (OneOrMore (CSet [CWord])), Star ws, Lit CHR ''='', Star ws,
     Lit sq, Group 2 (OneOrMore (NSet [CChar sq])), Lit sq] @
     [Opt (Seqs [OneOrMore ws, Str ''WHERE'', OneOrMore ws, Group 3 (OneOrMore Dot)])])"
    by (simp add: updatePattern_def)
  have p2: "updatePatternNoQuotes = Seqs ([Str ''UPDATE todos SET'', OneOrMore ws,
     Group 1 (OneOrMore (CSet [CWord])), Star ws, Lit CHR ''='', Star ws,
     Group 2 (OneOrMore (NSet [CChar CHR '','', CSpace]))] @
     [Opt (Seqs [OneOrMore ws, Str ''WHERE'', OneOrMore ws, Group 3 (OneOrMore Dot)])])"
    by (simp add: updatePatternNoQuotes_def)
  have c1: "m_caps m 3 = None" if "re_match True updatePattern sql = Some m" for m
  proof (rule ccontr)
    assume "m_caps m 3 \<noteq> None"
    from where_pattern_capture[OF that[unfolded p1] _ this] assms show False
      by (simp add: OneOrMore_def ws_def)
  qed
  have c2: "m_caps m 3 = None" if "re_match True updatePatternNoQuotes sql = Some m" for m
  proof (rule ccontr)
    assume "m_caps m 3 \<noteq> None"
    from where_pattern_capture[OF that[unfolded p2] _ this] assms show False
      by (simp add: OneOrMore_def ws_def)
  qed
  show ?thesis
  proof (cases "re_match True updatePattern sql")
    case (Some m)
    with c1[OF Some] show ?thesis by (simp add: updateParts_def truthy_def Let_def)
  next
    case None
    show ?thesis
    proof (cases "re_match True updatePatternNoQuotes sql")
      case (Some m)
      with None c2[OF Some] show ?thesis by (simp add: updateParts_def truthy_def Let_def)
    next
      case None2: None
      with None show ?thesis by (simp add: updateParts_def)
    qed
  qed
qed

section \<open>UPDATE and DELETE without WHERE\<close>

text \<open>
  C1. An UPDATE or DELETE statement whose text does not contain the keyword WHERE (in any
  letter case) makes its handler fail, with the parse error or the missing-WHERE error,
  and the store is returned as it was: no call reaches it.
\<close>

theorem no_where_no_store_call:
  assumes "\<not> str_includes (toUpperCase sql) ''WHERE''"
  shows "(handleUpdateQuery sql st = (Inl ''Could not parse UPDATE statement'', st) \<or>
          handleUpdateQuery sql st =
            (Inl ''UPDATE without WHERE clause is not allowed for safety'', st)) \<and>
         (handleDeleteQuery sql st = (Inl ''Could not parse DELETE statement'', st) \<or>
          handleDeleteQuery sql st =
            (Inl ''DELETE without WHERE clause is not allowed for safety'', st))"
  using updateParts_needs_keyword[OF assms] deleteWhere_needs_keyword[OF assms]
  by (auto simp: handleUpdateQuery_def handleDeleteQuery_def)

theorem no_where_no_store_call_witness:
  "handleDeleteQuery ''DELETE FROM todos'' sample_store =
     (Inl ''DELETE without WHERE clause is not allowed for safety'', sample_store) \<and>
   handleUpdateQuery ''UPDATE todos SET completed = true'' sample_store =
     (Inl ''UPDATE without WHERE clause is not allowed for safety'', sample_store)"
proof -
  have h1: "\<not> str_includes (toUpperCase ''DELETE FROM todos'') ''WHERE''" by code_simp
  have h2: "\<not> str_includes (toUpperCase ''UPDATE todos SET completed = true'') ''WHERE''"
    by code_simp
  have d: "deleteWhere ''DELETE FROM todos'' =
      Inl ''DELETE without WHERE clause is not allowed for safety''"
    by code_simp
  have u: "updateParts ''UPDATE todos SET completed = true'' =
      Inl ''UPDATE without WHERE clause is not allowed for safety''"
    by code_simp
  have d': "handleDeleteQuery ''DELETE FROM todos'' sample_store \<noteq>
      (Inl ''Could not parse DELETE statement'', sample_store)"
    by (simp add: handleDeleteQuery_def d)
  have u': "handleUpdateQuery ''UPDATE todos SET completed = true'' sample_store \<noteq>
      (Inl ''Could not parse UPDATE statement'', sample_store)"
    by (simp add: handleUpdateQuery_def u)
  from no_where_no_store_call[OF h1, of sample_store] no_where_no_store_call[OF h2, of sample_store]
    d' u' show ?thesis by blast
qed



lemma selected_Nil [simp]: "selected [] r"
  by (simp add: selected_def)



section \<open>The SELECT handler\<close>



lemma ms_Lit_D:
  "st' \<in> set (ms ic (Lit d) st) \<Longrightarrow>
   \<exists>x. fst (snd st) = x # fst (snd st') \<and> in_class ic (CChar d) x"
  by (auto dest!: step_char_D)

lemma ms_CSet_D:
  "st' \<in> set (ms ic (CSet cs) st) \<Longrightarrow>
   \<exists>x. fst (snd st) = x # fst (snd st') \<and> list_ex (\<lambda>k. in_class ic k x) cs"
  by (auto dest!: step_char_D)

lemma ms_NSet_D:
  "st' \<in> set (ms ic (NSet cs) st) \<Longrightarrow>
   \<exists>x. fst (snd st) = x # fst (snd st') \<and> \<not> list_ex (\<lambda>k. in_class ic k x) cs"
  by (auto dest!: step_char_D)

lemma ms_Group_D:
  "st' \<in> set (ms ic (Group n a) st) \<Longrightarrow>
   \<exists>st0 \<in> set (ms ic a st). fst (snd st') = fst (snd st0)"
  by (cases st) force

text \<open>A starred pattern whose every match is one character with a property.\<close>

lemma ms_Star_chars:
  assumes one: "\<And>st st'. st' \<in> set (ms ic a st) \<Longrightarrow> \<exists>x. fst (snd st) = x # fst (snd st') \<and> P x"
    and "st' \<in> set (ms ic (Star a) st)"
  shows "\<exists>w. fst (snd st) = w @ fst (snd st') \<and> (\<forall>x \<in> set w. P x)"
  using assms(2)
proof (induction "length (fst (snd st))" arbitrary: st rule: less_induct)
  case less
  obtain i s c where st: "st = (i, s, c)" by (cases st)
  from less.prems have "st' \<in> set (ms ic (Star a) (i, s, c))" unfolding st .
  then consider "st' = (i, s, c)"
    | st1 where "st1 \<in> set (ms ic a (i, s, reset (groups a) c))" "progress s st1"
        "st' \<in> set (ms ic (Star a) st1)"
    by (subst (asm) ms_Star) auto
  then show ?case
  proof cases
    case 1
    then show ?thesis using st by simp
  next
    case 2
    from one[OF 2(1)] obtain x where x: "s = x # fst (snd st1)" "P x" by auto
    then have "length (fst (snd st1)) < length (fst (snd st))" using st by simp
    from less.hyps[OF this 2(3)] obtain w where
      w: "fst (snd st1) = w @ fst (snd st')" "\<forall>x \<in> set w. P x" by blast
    show ?thesis using x w st by (intro exI[of _ "x # w"]) simp
  qed
qed

lemma ms_OneOrMore_chars:
  assumes one: "\<And>st st'. st' \<in> set (ms ic a st) \<Longrightarrow> \<exists>x. fst (snd st) = x # fst (snd st') \<and> P x"
    and "st' \<in> set (ms ic (OneOrMore a) st)"
  shows "\<exists>w. fst (snd st) = w @ fst (snd st') \<and> w \<noteq> [] \<and> (\<forall>x \<in> set w. P x)"
proof -
  from assms(2) obtain st1 where 1: "st1 \<in> set (ms ic a st)"
    and 2: "st' \<in> set (ms ic (Star a) st1)"
    by (auto simp: OneOrMore_def)
  from one[OF 1] obtain x where x: "fst (snd st) = x # fst (snd st1)" "P x" by auto
  from ms_Star_chars[of ic a P, OF one 2] obtain w where
    w: "fst (snd st1) = w @ fst (snd st')" "\<forall>x \<in> set w. P x" by blast
  show ?thesis using x w by (intro exI[of _ "x # w"]) simp
qed

lemma ms_Seqs_append:
  "st' \<in> set (ms ic (Seqs (xs @ ys)) st) \<Longrightarrow>
   \<exists>st1 \<in> set (ms ic (Seqs xs) st). st' \<in> set (ms ic (Seqs ys) st1)"
proof (induction xs arbitrary: st)
  case Nil
  then show ?case by simp
next
  case (Cons a xs)
  from Cons.prems obtain st0 where a: "st0 \<in> set (ms ic a st)"
    and b: "st' \<in> set (ms ic (Seqs (xs @ ys)) st0)" by auto
  from Cons.IH[OF b] obtain st1 where "st1 \<in> set (ms ic (Seqs xs) st0)"
    "st' \<in> set (ms ic (Seqs ys) st1)" by blast
  with a show ?case by auto
qed

lemma ms_Seqs_Cons:
  "st' \<in> set (ms ic (Seqs (r # rs)) st) \<Longrightarrow>
   \<exists>st1 \<in> set (ms ic r st). st' \<in> set (ms ic (Seqs rs) st1)"
  by auto

text \<open>Global replacement, one character at a time.\<close>

lemma replace_all_from_skip:
  assumes "ms ic r (i, x # xs, Map.empty) = []"
  shows "replace_all_from ic r repl whole i (x # xs) =
         x # replace_all_from ic r repl whole (Suc i) xs"
proof (cases "search_from ic r (Suc i) xs")
  case None
  then show ?thesis using assms
    by (simp add: replace_all_from.simps[of _ _ _ _ i] replace_all_from.simps[of _ _ _ _ "Suc i"])
next
  case (Some m)
  from search_from_lengths(2)[OF Some] have "Suc i \<le> m_index m" .
  then have "take (m_index m - i) (x # xs) = x # take (m_index m - Suc i) xs"
    by (simp add: take_Cons' Suc_diff_le)
  then show ?thesis using assms Some
    by (simp add: replace_all_from.simps[of _ _ _ _ i] replace_all_from.simps[of _ _ _ _ "Suc i"])
qed

lemma replace_all_from_Nil:
  assumes "ms ic r (i, [], Map.empty) = []"
  shows "replace_all_from ic r repl whole i [] = []"
  using assms by (simp add: replace_all_from.simps)

lemma replace_all_from_hit:
  assumes "ms ic r (i, s, Map.empty) = (j, s', c) # sts" and "length s' < length s"
  shows "replace_all_from ic r repl whole i s =
         substitute r repl whole
           \<lparr>m_index = i, m_text = take (length s - length s') s, m_rest = s', m_caps = c\<rparr> @
         replace_all_from ic r repl whole (i + (length s - length s')) s'"
proof -
  from assms(2) obtain x xs where s: "s = x # xs" by (cases s) auto
  have se: "search_from ic r i s =
      Some \<lparr>m_index = i, m_text = take (length s - length s') s, m_rest = s', m_caps = c\<rparr>"
    using assms(1) unfolding s by simp
  have ne: "take (length s - length s') s \<noteq> []" using assms(2) s by simp
  show ?thesis
    by (subst replace_all_from.simps) (use assms(2) ne in \<open>simp add: se\<close>)
qed

lemma sq_upper [simp]: "toUpperChar x = sq \<longleftrightarrow> x = sq"
  by (auto simp: toUpperChar_def sq_def split: option.splits dest!: map_of_SomeD)

lemma escapeQuotes_from:
  "replace_all_from False (Lit sq) [sq, sq] whole i d =
   concat (map (\<lambda>x. if x = sq then [sq, sq] else [x]) d)"
proof (induction d arbitrary: i)
  case Nil
  then show ?case by (simp add: replace_all_from_Nil)
next
  case (Cons x xs)
  show ?case
  proof (cases "x = sq")
    case True
    have m: "ms False (Lit sq) (i, x # xs, Map.empty) = (Suc i, xs, Map.empty) # []"
      using True by simp
    have "substitute (Lit sq) [sq, sq] whole
           \<lparr>m_index = i, m_text = take (length (x # xs) - length xs) (x # xs), m_rest = xs,
            m_caps = Map.empty\<rparr> = [sq, sq]"
      by (simp add: substitute_def sq_def)
    with replace_all_from_hit[OF m, of "[sq, sq]" whole] Cons.IH[of "Suc i"] True
    show ?thesis by simp
  next
    case False
    then have m: "ms False (Lit sq) (i, x # xs, Map.empty) = []" by simp
    from replace_all_from_skip[OF m, of "[sq, sq]" whole] Cons.IH[of "Suc i"] False
    show ?thesis by simp
  qed
qed

lemma escapeQuotes_eq:
  "escapeQuotes d = concat (map (\<lambda>x. if x = sq then [sq, sq] else [x]) d)"
  by (simp add: escapeQuotes_def replace_all_def escapeQuotes_from)

text \<open>
  The INSERT pattern needs an opening parenthesis or a space, a quote, one or more
  characters that are not quotes, a quote, and a space or a comma. The scanner below
  looks for that shape: a character that is not a quote, a quote, characters that are
  not quotes, a quote, a character that is not a quote.
\<close>

datatype scan = Q0 | QF | QFT | QFTF | QFTFT | QAcc

fun scan_other :: "scan \<Rightarrow> scan" where
  "scan_other Q0 = QF"
| "scan_other QF = QF"
| "scan_other QFT = QFTF"
| "scan_other QFTF = QFTF"
| "scan_other QFTFT = QAcc"
| "scan_other QAcc = QAcc"

fun scan_quote :: "scan \<Rightarrow> scan" where
  "scan_quote Q0 = Q0"
| "scan_quote QF = QFT"
| "scan_quote QFT = Q0"
| "scan_quote QFTF = QFTFT"
| "scan_quote QFTFT = Q0"
| "scan_quote QAcc = QAcc"

definition scan_step :: "scan \<Rightarrow> char \<Rightarrow> scan" where
  "scan_step q x = (if x = sq then scan_quote q else scan_other q)"

lemma scan_step_other [simp]: "x \<noteq> sq \<Longrightarrow> scan_step q x = scan_other q"
  by (simp add: scan_step_def)

lemma scan_step_quote [simp]: "scan_step q sq = scan_quote q"
  by (simp add: scan_step_def)

lemma scan_other_twice [simp]: "scan_other (scan_other q) = scan_other q"
  by (cases q) simp_all

lemma scan_others:
  "f \<noteq> [] \<Longrightarrow> sq \<notin> set f \<Longrightarrow> foldl scan_step q f = scan_other q"
proof (induction f arbitrary: q)
  case Nil
  then show ?case by simp
next
  case (Cons x f)
  from Cons.prems have x: "x \<noteq> sq" and f: "sq \<notin> set f" by auto
  show ?case
  proof (cases "f = []")
    case True
    with x show ?thesis by simp
  next
    case False
    from Cons.IH[OF False f, of "scan_other q"] x show ?thesis by simp
  qed
qed

lemma scan_accepted: "foldl scan_step QAcc s = QAcc"
  by (induction s) (simp_all add: scan_step_def)

lemma scan_accepted_other [simp]: "foldl scan_step (scan_other QAcc) s = QAcc"
  by (simp add: scan_accepted)

lemma scan_shape:
  assumes "f1 \<noteq> []" "sq \<notin> set f1" "t \<noteq> []" "sq \<notin> set t" "f2 \<noteq> []" "sq \<notin> set f2"
  shows "foldl scan_step q (a @ f1 @ [sq] @ t @ [sq] @ f2 @ b) = QAcc"
proof -
  have "scan_other (scan_quote (scan_other (scan_quote (scan_other q')))) = QAcc" for q'
    by (cases q') simp_all
  then show ?thesis
    using assms by (simp add: scan_others scan_accepted)
qed

lemma scan_escaped:
  assumes "q \<in> {Q0, QF, QFT, QFTF}"
  shows "foldl scan_step q (concat (map (\<lambda>x. if x = sq then [sq, sq] else [x]) d))
           \<in> (if sq \<in> set d \<or> q \<in> {Q0, QF} then {Q0, QF} else {Q0, QF, QFT, QFTF})"
  using assms
proof (induction d arbitrary: q)
  case Nil
  then show ?case by auto
next
  case (Cons x d)
  show ?case
  proof (cases "x = sq")
    case True
    have "scan_quote (scan_quote q) = Q0" using Cons.prems by auto
    with Cons.IH[of Q0] True show ?thesis by simp
  next
    case False
    have 1: "scan_other q \<in> {Q0, QF, QFT, QFTF}" using Cons.prems by auto
    have 2: "q \<in> {Q0, QF} \<Longrightarrow> scan_other q \<in> {Q0, QF}" by auto
    from Cons.IH[OF 1] 2 False show ?thesis
      by (auto split: if_splits)
  qed
qed

lemma scan_statement:
  assumes "sq \<notin> set pre" "sq \<notin> set post" "sq \<in> set d"
  shows "foldl scan_step Q0 (pre @ [sq] @ escapeQuotes d @ [sq] @ post) \<noteq> QAcc"
proof -
  have p: "foldl scan_step Q0 pre \<in> {Q0, QF}"
    using scan_others[of pre Q0] assms(1) by (cases "pre = []") auto
  then have "scan_quote (foldl scan_step Q0 pre) \<in> {Q0, QF, QFT, QFTF}" by auto
  from scan_escaped[OF this, of d] assms(3)
  have "foldl scan_step (scan_quote (foldl scan_step Q0 pre))
          (concat (map (\<lambda>x. if x = sq then [sq, sq] else [x]) d)) \<in> {Q0, QF}" by simp
  then have e: "scan_quote (foldl scan_step (scan_quote (foldl scan_step Q0 pre))
          (concat (map (\<lambda>x. if x = sq then [sq, sq] else [x]) d))) \<in> {Q0, QFT}" by auto
  have "foldl scan_step q post \<noteq> QAcc" if "q \<in> {Q0, QFT}" for q
    using scan_others[of post q] assms(2) that by (cases "post = []") auto
  from this[OF e] show ?thesis
    by (simp add: escapeQuotes_eq)
qed

lemma ws_one:
  "st' \<in> set (ms ic ws st) \<Longrightarrow> \<exists>x. fst (snd st) = x # fst (snd st') \<and> is_space x"
  by (auto simp: ws_def dest!: step_char_D)

lemma sq_upper_self [simp]: "toUpperChar sq = sq"
  using sq_upper[of sq] by simp

lemma not_quote_one:
  "st' \<in> set (ms True (NSet [CChar sq]) st) \<Longrightarrow>
   \<exists>x. fst (snd st) = x # fst (snd st') \<and> x \<noteq> sq"
  by (auto dest!: step_char_D)

lemma insertPattern_shape:
  assumes "st' \<in> set (ms True insertPattern st)"
  shows "\<exists>a f1 t f2 b. fst (snd st) = a @ f1 @ [sq] @ t @ [sq] @ f2 @ b \<and>
           f1 \<noteq> [] \<and> sq \<notin> set f1 \<and> t \<noteq> [] \<and> sq \<notin> set t \<and> f2 \<noteq> [] \<and> sq \<notin> set f2"
proof -
  let ?P = "[Str ''INSERT INTO todos'', Star ws, Lit CHR ''('',
     OneOrMore (NSet [CChar CHR '')'']), Lit CHR '')'', Star ws, Str ''VALUES'', Star ws]"
  let ?R' = "[Star ws, Group 2 (Alts [Str ''true'', Str ''false'']), Star ws, Lit CHR '')'']"
  let ?R = "Star ws # Lit CHR '','' # ?R'"
  have p: "insertPattern = Seqs (?P @ (Lit CHR ''('' # Star ws # Lit sq #
       Group 1 (OneOrMore (NSet [CChar sq])) # Lit sq # ?R))"
    by (simp add: insertPattern_def)
  from assms[unfolded p] ms_Seqs_append obtain st1 where
    1: "st1 \<in> set (ms True (Seqs ?P) st)" and
    2: "st' \<in> set (ms True (Seqs (Lit CHR ''('' # Star ws # Lit sq #
       Group 1 (OneOrMore (NSet [CChar sq])) # Lit sq # ?R)) st1)"
    by blast
  from ms_suffix[OF 1] obtain a where a: "fst (snd st) = a @ fst (snd st1)" by auto
  from ms_Seqs_Cons[OF 2] obtain st2 where
    3: "st2 \<in> set (ms True (Lit CHR ''('') st1)" and
    4: "st' \<in> set (ms True (Seqs (Star ws # Lit sq #
       Group 1 (OneOrMore (NSet [CChar sq])) # Lit sq # ?R)) st2)"
    by blast
  from ms_Lit_D[OF 3] obtain x where x: "fst (snd st1) = x # fst (snd st2)"
    "toUpperChar x = toUpperChar CHR ''(''" by auto
  from ms_Seqs_Cons[OF 4] obtain st3 where
    5: "st3 \<in> set (ms True (Star ws) st2)" and
    6: "st' \<in> set (ms True (Seqs (Lit sq # Group 1 (OneOrMore (NSet [CChar sq])) # Lit sq # ?R)) st3)"
    by blast
  from ms_Star_chars[of True ws is_space, OF ws_one[where ic=True] 5] obtain w0 where
    w0: "fst (snd st2) = w0 @ fst (snd st3)" "\<forall>x \<in> set w0. is_space x" by blast
  from ms_Seqs_Cons[OF 6] obtain st4 where
    7: "st4 \<in> set (ms True (Lit sq) st3)" and
    8: "st' \<in> set (ms True (Seqs (Group 1 (OneOrMore (NSet [CChar sq])) # Lit sq # ?R)) st4)"
    by blast
  from ms_Lit_D[OF 7] have y: "fst (snd st3) = sq # fst (snd st4)" by auto
  from ms_Seqs_Cons[OF 8] obtain st5 where
    9: "st5 \<in> set (ms True (Group 1 (OneOrMore (NSet [CChar sq]))) st4)" and
    10: "st' \<in> set (ms True (Seqs (Lit sq # ?R)) st5)"
    by blast
  from ms_Group_D[OF 9] obtain st5' where
    11: "st5' \<in> set (ms True (OneOrMore (NSet [CChar sq])) st4)"
    and e5: "fst (snd st5) = fst (snd st5')" by blast
  from ms_OneOrMore_chars[of True "NSet [CChar sq]" "\<lambda>x. x \<noteq> sq", OF not_quote_one 11]
  obtain t where t: "fst (snd st4) = t @ fst (snd st5)" "t \<noteq> []" "\<forall>x \<in> set t. x \<noteq> sq"
    using e5 by auto
  from ms_Seqs_Cons[OF 10] obtain st6 where
    12: "st6 \<in> set (ms True (Lit sq) st5)" and
    13: "st' \<in> set (ms True (Seqs ?R) st6)"
    by blast
  from ms_Lit_D[OF 12] have z: "fst (snd st5) = sq # fst (snd st6)" by auto
  from ms_Seqs_Cons[OF 13] obtain st7 where
    14: "st7 \<in> set (ms True (Star ws) st6)" and
    15: "st' \<in> set (ms True (Seqs (Lit CHR '','' # ?R')) st7)"
    by blast
  from ms_Star_chars[of True ws is_space, OF ws_one[where ic=True] 14] obtain w where
    w: "fst (snd st6) = w @ fst (snd st7)" "\<forall>x \<in> set w. is_space x" by blast
  from ms_Seqs_Cons[OF 15] obtain st8 where
    16: "st8 \<in> set (ms True (Lit CHR '','') st7)" by blast
  from ms_Lit_D[OF 16] obtain c where c: "fst (snd st7) = c # fst (snd st8)"
    "toUpperChar c = toUpperChar CHR '',''" by auto
  have up: "toUpperChar CHR ''('' \<noteq> sq" "toUpperChar CHR '','' \<noteq> sq" "\<not> is_space sq"
    by code_simp+
  have xq: "x \<noteq> sq" using x(2) up(1) sq_upper[of x] by auto
  have cq: "c \<noteq> sq" using c(2) up(2) sq_upper[of c] by auto
  have sp: "sq \<notin> set w0" "sq \<notin> set w" using w0(2) w(2) up(3) by auto
  have "fst (snd st) = a @ (x # w0) @ [sq] @ t @ [sq] @ (w @ [c]) @ fst (snd st8)"
    using a x(1) w0(1) y t(1) z w(1) c(1) by simp
  moreover have "sq \<notin> set (x # w0)" "sq \<notin> set (w @ [c])" "sq \<notin> set t"
    using xq cq sp t(3) by auto
  ultimately show ?thesis using t(2) by (metis append_is_Nil_conv list.distinct(1))
qed

lemma insertPattern_no_match:
  assumes "sq \<notin> set pre" "sq \<notin> set post" "sq \<in> set d"
  shows "re_match True insertPattern (pre @ [sq] @ escapeQuotes d @ [sq] @ post) = None"
proof (rule ccontr)
  let ?S = "pre @ [sq] @ escapeQuotes d @ [sq] @ post"
  assume "re_match True insertPattern ?S \<noteq> None"
  then obtain m where "search_from True insertPattern 0 ?S = Some m"
    by (auto simp: re_match_def)
  from search_from_Some[OF this] obtain k st' sts where
    k: "ms True insertPattern (0 + k, drop k ?S, Map.empty) = st' # sts" by blast
  then have "st' \<in> set (ms True insertPattern (0 + k, drop k ?S, Map.empty))" by simp
  from insertPattern_shape[OF this] obtain a f1 t f2 b where
    s: "drop k ?S = a @ f1 @ [sq] @ t @ [sq] @ f2 @ b"
    "f1 \<noteq> []" "sq \<notin> set f1" "t \<noteq> []" "sq \<notin> set t" "f2 \<noteq> []" "sq \<notin> set f2" by auto
  have eq: "?S = (take k ?S @ a) @ f1 @ [sq] @ t @ [sq] @ f2 @ b"
    using s(1) by (metis append_take_drop_id append.assoc)
  have "foldl scan_step Q0 ?S = QAcc"
    by (subst eq) (rule scan_shape[OF s(2-7)])
  with scan_statement[OF assms] show False by (rule notE)
qed

section \<open>Escaped quotes in INSERT\<close>

text \<open>
  C10. A statement whose only quoted literal is an escaped text with at least one
  apostrophe (so the literal contains two quotes in a row), as \<open>fixSQLSyntax\<close> produces
  it, is rejected by \<open>handleInsertQuery\<close> with the parse error, and the store is not
  called.
\<close>

theorem escaped_quote_not_parsed:
  assumes "sq \<notin> set pre" "sq \<notin> set post" "sq \<in> set d"
  shows "handleInsertQuery (pre @ [sq] @ escapeQuotes d @ [sq] @ post) st =
         (Inl ''Could not parse INSERT statement'', st)"
  using insertPattern_no_match[OF assms]
  by (simp add: handleInsertQuery_def insertParts_def)

theorem escaped_quote_not_parsed_witness:
  "fixSQLSyntax ''INSERT INTO todos (title, completed) VALUES (dont forget milk, false)''
     ''add a task to don't forget milk'' =
     ''INSERT INTO todos (title, completed) VALUES ('Don'' @ [sq, sq] @ ''t forget milk', false)'' \<and>
   handleInsertQuery
     (fixSQLSyntax ''INSERT INTO todos (title, completed) VALUES (dont forget milk, false)''
        ''add a task to don't forget milk'') sample_store =
     (Inl ''Could not parse INSERT statement'', sample_store)"
proof -
  have f: "fixSQLSyntax ''INSERT INTO todos (title, completed) VALUES (dont forget milk, false)''
     ''add a task to don't forget milk'' =
     ''INSERT INTO todos (title, completed) VALUES ('Don'' @ [sq, sq] @ ''t forget milk', false)''"
    by code_simp
  have e: "''INSERT INTO todos (title, completed) VALUES ('Don'' @ [sq, sq] @ ''t forget milk', false)''
      = ''INSERT INTO todos (title, completed) VALUES ('' @ [sq] @
        escapeQuotes ''Don't forget milk'' @ [sq] @ '', false)''"
    by code_simp
  have h: "sq \<notin> set ''INSERT INTO todos (title, completed) VALUES (''" "sq \<notin> set '', false)''"
    "sq \<in> set ''Don't forget milk''"
    by code_simp+
  show ?thesis
    unfolding f unfolding e by (intro conjI refl escaped_quote_not_parsed[OF h])
qed

end
